theory Spec2Isabelle
  imports Main "HOL-Library.Char_ord" "HOL-Library.List_Lexorder" "HOL-Library.Sublist"
begin

section \<open>PRN manager: a shallow embedding of app.py\<close>

text \<open>
  The program is a Flask application that stores label templates (PRN files) per product
  and production stage, keeps named variables per product and stage in SQLite, and writes
  filled copies of a template with the variables substituted for \<open>{FIELD}\<close> placeholders.

  Python text is modelled as \<open>string\<close>, a list of 8-bit characters read as the code points
  0 to 255. The SQLite tables are lists of rows, the upload folder is a map from paths to
  file contents, and every handler takes the state it reads and returns the state it leaves.
\<close>

subsection \<open>Text primitives of Python\<close>

text \<open>\<open>str.isspace\<close> on the code points below 256.\<close>

definition py_isspace :: "char \<Rightarrow> bool" where
  "py_isspace c =
     (let n = (of_char c :: nat)
      in (9 \<le> n \<and> n \<le> 13) \<or> (28 \<le> n \<and> n \<le> 32) \<or> n = 133 \<or> n = 160)"

text \<open>\<open>s.strip()\<close>: leading and trailing whitespace removed.\<close>

definition py_strip :: "string \<Rightarrow> string" where
  "py_strip s = rev (dropWhile py_isspace (rev (dropWhile py_isspace s)))"

text \<open>\<open>s.strip(chars)\<close>: leading and trailing characters of \<open>chars\<close> removed.\<close>

definition strip_chars :: "string \<Rightarrow> string \<Rightarrow> string" where
  "strip_chars chars s =
     rev (dropWhile (\<lambda>c. c \<in> set chars) (rev (dropWhile (\<lambda>c. c \<in> set chars) s)))"

text \<open>
  \<open>s.lower()\<close>: the upper-case letters below 256 are \<open>A\<close> to \<open>Z\<close> and the code points 192
  to 222 but 215; each lies 32 below its lower-case letter, and bit 5 of each is clear.
\<close>

fun add32 :: "char \<Rightarrow> char" where
  "add32 (Char b0 b1 b2 b3 b4 b5 b6 b7) = Char b0 b1 b2 b3 b4 True b6 b7"

definition py_lower_char :: "char \<Rightarrow> char" where
  "py_lower_char c =
     (let n = (of_char c :: nat)
      in if (65 \<le> n \<and> n \<le> 90) \<or> (192 \<le> n \<and> n \<le> 222 \<and> n \<noteq> 215)
         then add32 c else c)"

definition py_lower :: "string \<Rightarrow> string" where
  "py_lower s = map py_lower_char s"

subsection \<open>Stage normalizer\<close>

definition ALLOWED_STAGES :: "string list" where
  "ALLOWED_STAGES = [''Raw'', ''SFG'', ''FG'']"

text \<open>\<open>stage_folder_name\<close>: \<open>None\<close> is Python's \<open>None\<close>, the invalid signal.\<close>

definition stage_folder_name :: "string \<Rightarrow> string option" where
  "stage_folder_name stage_raw =
     (if stage_raw = [] then None
      else let s = py_lower (py_strip stage_raw)
      in if s \<in> set [''raw'', ''rawmaterial'', ''raw_material'', ''raw material'']
         then Some ''Raw''
         else if s \<in> set [''sfg'', ''semi'', ''semi_finished'', ''semi_finished_good'',
                            ''semi finished'', ''semi-finished'', ''semifinished'']
         then Some ''SFG''
         else if s \<in> set [''fg'', ''finished'', ''finished_good'', ''finished good'',
                            ''finished-good'']
         then Some ''FG''
         else if stage_raw \<in> set ALLOWED_STAGES then Some stage_raw
         else None)"

text \<open>
  The inputs the specification documents for the normalizer: nine aliases and the three
  canonical forms.
\<close>

definition documented_stage_inputs :: "string list" where
  "documented_stage_inputs =
     [''raw'', ''raw material'', ''raw_material'', ''sfg'', ''semi finished'', ''semi-finished'',
      ''fg'', ''finished good'', ''finished-good'', ''Raw'', ''SFG'', ''FG'']"

subsection \<open>Placeholder extractor\<close>

text \<open>The character class \<open>[A-Za-z0-9_]\<close>.\<close>

definition is_word_char :: "char \<Rightarrow> bool" where
  "is_word_char c =
     (let n = (of_char c :: nat)
      in (65 \<le> n \<and> n \<le> 90) \<or> (97 \<le> n \<and> n \<le> 122) \<or> (48 \<le> n \<and> n \<le> 57) \<or> n = 95)"

text \<open>
  \<open>re.findall(r"\{[A-Za-z0-9_]+\}", text)\<close>: the matches from left to right, none
  overlapping. At an opening brace the greedy run of word characters is taken; the match
  succeeds when the run is not empty and a closing brace follows it (a shorter run is
  followed by a word character, so backtracking finds nothing more), and the scan goes on
  behind the match. Otherwise the scan moves one character on.
\<close>

function findall_placeholders :: "string \<Rightarrow> string list" where
  "findall_placeholders [] = []"
| "findall_placeholders (c # cs) =
     (if c = CHR ''{'' \<and> takeWhile is_word_char cs \<noteq> []
         \<and> take 1 (dropWhile is_word_char cs) = ''}''
      then (c # takeWhile is_word_char cs @ ''}'')
             # findall_placeholders (drop 1 (dropWhile is_word_char cs))
      else findall_placeholders cs)"
  by pat_completeness auto
termination
  by (relation "measure length")
    (auto simp: length_dropWhile_le less_Suc_eq_le intro: le_trans[OF diff_le_self])

text \<open>\<open>sorted(set(m.strip("{}") for m in matches))\<close>, on the text of the file.\<close>

definition extract_fields :: "string \<Rightarrow> string list" where
  "extract_fields text =
     sort (remdups (map (strip_chars ''{}'') (findall_placeholders text)))"

text \<open>
  \<open>extract_prn_columns\<close> reads the file first; a file that cannot be opened raises, and
  the exception is passed on.
\<close>

datatype io_error = FileNotFound

definition extract_prn_columns :: "(string \<rightharpoonup> string) \<Rightarrow> string \<Rightarrow> io_error + string list" where
  "extract_prn_columns files file_path =
     (case files file_path of
        None \<Rightarrow> Inl FileNotFound
      | Some text \<Rightarrow> Inr (extract_fields text))"

text \<open>A placeholder token with the name \<open>n\<close> stands somewhere in the text \<open>t\<close>.\<close>

definition occurs :: "string \<Rightarrow> string \<Rightarrow> bool" where
  "occurs n t = (\<exists>pre post. t = pre @ CHR ''{'' # n @ CHR ''}'' # post)"

subsection \<open>Template substitution engine\<close>

text \<open>
  \<open>re.sub(pattern, repl, text)\<close> with a string \<open>repl\<close> reads \<open>repl\<close> as a replacement
  template before it looks for a match: a backslash starts an escape, and a template that
  does not parse raises \<open>re.error\<close> (or \<open>IndexError\<close> for an unknown group name), also
  when the pattern matches nowhere. The pattern built by \<open>_fill_prn_content\<close> has no
  group, so group 0, the whole match, is the only group a template may name.
\<close>

datatype re_error =
  Bad_escape | Bad_group_name | Invalid_group_reference | Octal_out_of_range

datatype template_item = Literal char | Group0

definition backslash :: char where
  "backslash = CHR 0x5C"

definition is_digit :: "char \<Rightarrow> bool" where
  "is_digit c = (let n = (of_char c :: nat) in 48 \<le> n \<and> n \<le> 57)"

definition is_oct_digit :: "char \<Rightarrow> bool" where
  "is_oct_digit c = (let n = (of_char c :: nat) in 48 \<le> n \<and> n \<le> 55)"

definition is_ascii_letter :: "char \<Rightarrow> bool" where
  "is_ascii_letter c =
     (let n = (of_char c :: nat) in (65 \<le> n \<and> n \<le> 90) \<or> (97 \<le> n \<and> n \<le> 122))"

definition digit_val :: "char \<Rightarrow> nat" where
  "digit_val c = of_char c - 48"

text \<open>
  One escape of the replacement template (CPython's \<open>parse_template\<close>), given the text
  behind the backslash: the items it stands for and the number of characters it takes.
  \<^item> Nothing behind the backslash: an error.
  \<^item> \<open>g<name>\<close>: the name is read up to the closing angle bracket; a name of ASCII digits is a
    group number, which must be 0 here; any other name is refused (CPython up to 3.11
    still reads a number written with a sign, blanks or underscores).
  \<^item> \<open>0\<close> and up to two octal digits: the character with that code.
  \<^item> Another digit: three octal digits are a character code of at most 255; anything
    else is a reference to a group from 1 on, which the pattern does not have.
  \<^item> \<open>a b f n r t v\<close> and the backslash: the control character, or one backslash.
  \<^item> Another ASCII letter: an error. Any other character: kept with its backslash.
\<close>

definition parse_escape :: "string \<Rightarrow> re_error + (template_item list \<times> nat)" where
  "parse_escape cs =
     (case cs of
        [] \<Rightarrow> Inl Bad_escape
      | e # rest \<Rightarrow>
          if e = CHR ''g'' then
            (if take 1 rest \<noteq> ''<'' then Inl Bad_group_name
             else let name = takeWhile (\<lambda>x. x \<noteq> CHR ''>'') (drop 1 rest)
                  in if dropWhile (\<lambda>x. x \<noteq> CHR ''>'') (drop 1 rest) = [] \<or> name = []
                     then Inl Bad_group_name
                     else if \<not> list_all is_digit name then Inl Bad_group_name
                     else if list_all (\<lambda>x. x = CHR ''0'') name
                     then Inr ([Group0], length name + 3)
                     else Inl Invalid_group_reference)
          else if e = CHR ''0'' then
            (let ds = takeWhile is_oct_digit (take 2 rest)
             in Inr ([Literal (char_of (foldl (\<lambda>a d. 8 * a + digit_val d) 0 ds mod 256))],
                     length ds + 1))
          else if is_digit e then
            (case rest of
               d2 # d3 # _ \<Rightarrow>
                 if is_oct_digit e \<and> is_oct_digit d2 \<and> is_oct_digit d3
                 then (let v = 64 * digit_val e + 8 * digit_val d2 + digit_val d3
                       in if 255 < v then Inl Octal_out_of_range
                          else Inr ([Literal (char_of v)], 3))
                 else Inl Invalid_group_reference
             | _ \<Rightarrow> Inl Invalid_group_reference)
          else if e = CHR ''a'' then Inr ([Literal (CHR 0x07)], 1)
          else if e = CHR ''b'' then Inr ([Literal (CHR 0x08)], 1)
          else if e = CHR ''f'' then Inr ([Literal (CHR 0x0C)], 1)
          else if e = CHR ''n'' then Inr ([Literal (CHR 0x0A)], 1)
          else if e = CHR ''r'' then Inr ([Literal (CHR 0x0D)], 1)
          else if e = CHR ''t'' then Inr ([Literal (CHR 0x09)], 1)
          else if e = CHR ''v'' then Inr ([Literal (CHR 0x0B)], 1)
          else if e = backslash then Inr ([Literal backslash], 1)
          else if is_ascii_letter e then Inl Bad_escape
          else Inr ([Literal backslash, Literal e], 1))"

function parse_template :: "string \<Rightarrow> re_error + template_item list" where
  "parse_template [] = Inr []"
| "parse_template (c # cs) =
     (if c = backslash
      then (case parse_escape cs of
              Inl err \<Rightarrow> Inl err
            | Inr (items, n) \<Rightarrow>
                (case parse_template (drop n cs) of
                   Inl err \<Rightarrow> Inl err
                 | Inr more \<Rightarrow> Inr (items @ more)))
      else (case parse_template cs of
              Inl err \<Rightarrow> Inl err
            | Inr more \<Rightarrow> Inr (Literal c # more)))"
  by pat_completeness auto
termination
  by (relation "measure length") auto

text \<open>The text a parsed template stands for at a match \<open>m\<close>.\<close>

definition expand_template :: "template_item list \<Rightarrow> string \<Rightarrow> string" where
  "expand_template items m =
     concat (map (\<lambda>i. case i of Literal c \<Rightarrow> [c] | Group0 \<Rightarrow> m) items)"

text \<open>
  Every match of a pattern that is one literal, non-empty string, replaced from left to
  right; the scan goes on behind a match, so matches do not overlap.
\<close>

function sub_literal :: "string \<Rightarrow> string \<Rightarrow> string \<Rightarrow> string" where
  "sub_literal pat rep [] = []"
| "sub_literal pat rep (c # cs) =
     (if pat \<noteq> [] \<and> take (length pat) (c # cs) = pat
      then rep @ sub_literal pat rep (drop (length pat) (c # cs))
      else c # sub_literal pat rep cs)"
  by pat_completeness auto
termination
  by (relation "measure (\<lambda>(pat, rep, s). length s)") auto

text \<open>
  The pattern \<open>r"\{" + re.escape(k) + r"\}"\<close> matches the literal text \<open>{k}\<close> and nothing
  else.
\<close>

definition placeholder :: "string \<Rightarrow> string" where
  "placeholder k = CHR ''{'' # k @ ''}''"

definition re_sub_placeholder :: "string \<Rightarrow> string \<Rightarrow> string \<Rightarrow> re_error + string" where
  "re_sub_placeholder k repl text =
     (case parse_template repl of
        Inl err \<Rightarrow> Inl err
      | Inr items \<Rightarrow>
          Inr (sub_literal (placeholder k) (expand_template items (placeholder k)) text))"

text \<open>
  The field map \<open>variables\<close> is a Python dictionary: an association list in insertion
  order, its keys distinct. A value is a string or \<open>None\<close>, as the variable store holds
  them; \<open>str\<close> of a string is the string.
\<close>

fun value_text :: "string option \<Rightarrow> string" where
  "value_text None = []"
| "value_text (Some s) = s"

text \<open>\<open>sorted(variables.keys(), key=lambda x: -len(x))\<close>; Python's sort is stable.\<close>

definition fill_order :: "(string \<times> string option) list \<Rightarrow> string list" where
  "fill_order variables = sort_key (\<lambda>k. - int (length k)) (map fst variables)"

text \<open>
  The loop of \<open>_fill_prn_content\<close> over the sorted keys. Every key comes from the
  dictionary, so the lookup \<open>variables[k]\<close> finds it.
\<close>

fun fill_loop ::
  "(string \<times> string option) list \<Rightarrow> string list \<Rightarrow> string \<Rightarrow> re_error + string" where
  "fill_loop variables [] prn_content = Inr prn_content"
| "fill_loop variables (k # ks) prn_content =
     (let v = (case map_of variables k of Some x \<Rightarrow> value_text x | None \<Rightarrow> [])
      in case re_sub_placeholder k v prn_content of
           Inl err \<Rightarrow> Inl err
         | Inr filled \<Rightarrow> fill_loop variables ks filled)"

definition fill_prn_content ::
  "string \<Rightarrow> (string \<times> string option) list \<Rightarrow> re_error + string" where
  "fill_prn_content prn_content variables =
     fill_loop variables (fill_order variables) prn_content"

text \<open>
  The specification's reading of a render, for comparison: a template is a sequence of
  plain text and placeholders, and all placeholders are replaced at once, a bound one by
  its value (\<open>None\<close> as the empty string), an unbound one by itself.
\<close>

datatype segment = Text string | Placeholder string

fun segment_text :: "segment \<Rightarrow> string" where
  "segment_text (Text s) = s"
| "segment_text (Placeholder n) = placeholder n"

definition template_text :: "segment list \<Rightarrow> string" where
  "template_text segs = concat (map segment_text segs)"

fun render_segment :: "(string \<rightharpoonup> string option) \<Rightarrow> segment \<Rightarrow> string" where
  "render_segment m (Text s) = s"
| "render_segment m (Placeholder n) =
     (case m n of Some v \<Rightarrow> value_text v | None \<Rightarrow> placeholder n)"

definition render_simultaneous :: "(string \<rightharpoonup> string option) \<Rightarrow> segment list \<Rightarrow> string" where
  "render_simultaneous m segs = concat (map (render_segment m) segs)"

definition brace_free :: "string \<Rightarrow> bool" where
  "brace_free s = (CHR ''{'' \<notin> set s \<and> CHR ''}'' \<notin> set s)"

text \<open>A segment without a stray brace: in its text, or in its placeholder's name.\<close>

fun wf_segment :: "segment \<Rightarrow> bool" where
  "wf_segment (Text s) = brace_free s"
| "wf_segment (Placeholder n) = brace_free n"

text \<open>A binding whose name has no brace and whose value has no brace and no backslash.\<close>

definition plain_binding :: "string \<times> string option \<Rightarrow> bool" where
  "plain_binding b =
     (brace_free (fst b) \<and> brace_free (value_text (snd b))
      \<and> backslash \<notin> set (value_text (snd b)))"

text \<open>One substitution step and the steps for a list of keys, on the segments.\<close>

definition subst_segment :: "string \<Rightarrow> string \<Rightarrow> segment \<Rightarrow> segment" where
  "subst_segment k v seg = (if seg = Placeholder k then Text v else seg)"

fun resolve_segment ::
  "(string \<times> string option) list \<Rightarrow> string list \<Rightarrow> segment \<Rightarrow> segment" where
  "resolve_segment vars ks (Text s) = Text s"
| "resolve_segment vars ks (Placeholder n) =
     (if n \<in> set ks
      then Text (case map_of vars n of Some x \<Rightarrow> value_text x | None \<Rightarrow> [])
      else Placeholder n)"

subsection \<open>The SQLite tables\<close>

text \<open>
  A table is the list of its rows in insertion order. \<open>id\<close> columns are
  \<open>AUTOINCREMENT\<close>: the database keeps the next id of each table, one more than the
  sequence SQLite stores. The sequence advances with every \<open>INSERT\<close> statement that
  completes, also when \<open>OR IGNORE\<close> drops the row or \<open>ON CONFLICT DO UPDATE\<close> updates
  another one; a statement that raises leaves it alone. The column \<open>uploaded_at\<close> of
  \<open>product_prns\<close> is left out; no handler modelled here reads it.
\<close>

record var_row =
  var_id :: nat
  var_product_id :: nat
  var_stage :: string
  field_name :: string
  field_value :: "string option"

record prn_row =
  prn_id :: nat
  prn_product_id :: nat
  prn_stage :: string
  prn_filename :: string
  prn_path :: string
  preview_path :: "string option"

record database =
  products :: "(nat \<times> string) list"
  variables :: "var_row list"
  product_prns :: "prn_row list"
  next_product_id :: nat
  next_variable_id :: nat
  next_prn_id :: nat

definition empty_db :: database where
  "empty_db = \<lparr>products = [], variables = [], product_prns = [],
     next_product_id = 1, next_variable_id = 1, next_prn_id = 1\<rparr>"

text \<open>
  What a handler answers: an error with its HTTP status and message, or the payload of
  the 200 answer.
\<close>

datatype response =
    Error nat string
  | Saved_merged string string
  | Variable_updated string string string
  | Uploaded string string string "string list" "string option"
  | Deleted string

text \<open>\<open>INSERT OR IGNORE INTO products (product_name) VALUES (?)\<close>; the name is unique.\<close>

definition insert_or_ignore_product :: "database \<Rightarrow> string \<Rightarrow> database" where
  "insert_or_ignore_product d name =
     (if name \<in> snd ` set (products d)
      then d\<lparr>next_product_id := Suc (next_product_id d)\<rparr>
      else d\<lparr>products := products d @ [(next_product_id d, name)],
              next_product_id := Suc (next_product_id d)\<rparr>)"

text \<open>\<open>SELECT id FROM products WHERE product_name = ?\<close> and \<open>fetchone\<close>.\<close>

definition select_product_id :: "database \<Rightarrow> string \<Rightarrow> nat option" where
  "select_product_id d name = map_option fst (find (\<lambda>r. snd r = name) (products d))"

text \<open>The rows of \<open>variables\<close> for a product, a stage and a field name.\<close>

definition var_matches :: "nat \<Rightarrow> string \<Rightarrow> string \<Rightarrow> var_row \<Rightarrow> bool" where
  "var_matches pid stage name r =
     (var_product_id r = pid \<and> var_stage r = stage \<and> field_name r = name)"

definition select_variable :: "database \<Rightarrow> nat \<Rightarrow> string \<Rightarrow> string \<Rightarrow> var_row option" where
  "select_variable d pid stage name = find (var_matches pid stage name) (variables d)"

text \<open>
  \<open>INSERT INTO variables ... ON CONFLICT(product_id, stage, field_name) DO UPDATE SET
  field_value = excluded.field_value\<close>.
\<close>

definition upsert_variable ::
  "database \<Rightarrow> nat \<Rightarrow> string \<Rightarrow> string \<Rightarrow> string option \<Rightarrow> database" where
  "upsert_variable d pid stage name val =
     (if list_ex (var_matches pid stage name) (variables d)
      then d\<lparr>variables :=
             map (\<lambda>r. if var_matches pid stage name r then r\<lparr>field_value := val\<rparr> else r)
               (variables d),
             next_variable_id := Suc (next_variable_id d)\<rparr>
      else d\<lparr>variables := variables d @
               [\<lparr>var_id = next_variable_id d, var_product_id = pid, var_stage = stage,
                 field_name = name, field_value = val\<rparr>],
             next_variable_id := Suc (next_variable_id d)\<rparr>)"

subsection \<open>Variable store\<close>

text \<open>
  The JSON body of a request, field by field: \<open>None\<close> is a key the body does not have.
  \<open>query_stage\<close> is the stage of the query string or the form, read when the body has
  none.
\<close>

record json_request =
  json_product_name :: "string option"
  json_stage :: "string option"
  query_stage :: "string option"

definition require_stage_from_request :: "'a json_request_scheme \<Rightarrow> string option" where
  "require_stage_from_request req =
     (let from_body = (case json_stage req of Some s \<Rightarrow> s | None \<Rightarrow> []);
          stage_raw = (if from_body \<noteq> [] then from_body
                       else case query_stage req of Some s \<Rightarrow> s | None \<Rightarrow> [])
      in stage_folder_name stage_raw)"

text \<open>
  \<open>save_fields\<close>, for a request that does not ask for a filled file: the optional
  generation (\<open>generate_filled\<close>) comes after the commit of the variables and leaves the
  table \<open>variables\<close> alone. The loop over \<open>variables.items()\<close> is the \<open>fold\<close>.
\<close>

record save_fields_request = json_request +
  json_variables :: "(string \<times> string option) list option"

definition save_fields :: "database \<Rightarrow> save_fields_request \<Rightarrow> response \<times> database" where
  "save_fields d req =
     (case (json_product_name req, json_variables req) of
        (Some raw_name, Some vars) \<Rightarrow>
          (case require_stage_from_request req of
             None \<Rightarrow> (Error 400 ''stage required and must be one of: Raw, SFG, FG'', d)
           | Some stage \<Rightarrow>
               let product_name = py_strip raw_name
               in if product_name = [] then (Error 400 ''product_name cannot be empty'', d)
                  else let d1 = insert_or_ignore_product d product_name
                       in (case select_product_id d1 product_name of
                             None \<Rightarrow> (Error 500 ''failed to create or fetch product'', d1)
                           | Some product_id \<Rightarrow>
                               (Saved_merged product_name stage,
                                fold (\<lambda>(name, val) acc. upsert_variable acc product_id stage name val)
                                  vars d1)))
      | _ \<Rightarrow> (Error 400 ''provide product_name and variables'', d))"

text \<open>
  \<open>update_variable\<close>, again for a request without \<open>generate_filled\<close>.
  \<open>new_field_value\<close> is \<open>None\<close> for a missing key, \<open>Some None\<close> for JSON's null.
  The two \<open>UPDATE\<close> statements address the row by the id read first.
\<close>

record update_variable_request = json_request +
  old_field_name :: "string option"
  new_field_name :: "string option"
  new_field_value :: "string option option"

definition update_variable ::
  "database \<Rightarrow> update_variable_request \<Rightarrow> response \<times> database" where
  "update_variable d req =
     (case (json_product_name req, old_field_name req) of
        (Some raw_name, Some raw_old) \<Rightarrow>
          if new_field_name req = None \<and> new_field_value req = None
          then (Error 400 ''product_name, old_field_name and (new_field_name or new_field_value) required'', d)
          else
          (case require_stage_from_request req of
             None \<Rightarrow> (Error 400 ''stage required and must be one of: Raw, SFG, FG'', d)
           | Some stage \<Rightarrow>
               let product_name = py_strip raw_name;
                   old = py_strip raw_old;
                   new_name = py_strip (case new_field_name req of Some n \<Rightarrow> n | None \<Rightarrow> old);
                   new_value = (case new_field_value req of Some v \<Rightarrow> v | None \<Rightarrow> None)
               in (case select_product_id d product_name of
                     None \<Rightarrow> (Error 404 ''product not found'', d)
                   | Some product_id \<Rightarrow>
                       (case select_variable d product_id stage old of
                          None \<Rightarrow> (Error 404 ''variable not found'', d)
                        | Some varrow \<Rightarrow>
                            if new_name \<noteq> old
                               \<and> select_variable d product_id stage new_name \<noteq> None
                            then (Error 409 ''target variable name already exists for this product+stage'', d)
                            else
                              let d1 = (if new_name \<noteq> old
                                        then d\<lparr>variables :=
                                               map (\<lambda>r. if var_id r = var_id varrow
                                                         then r\<lparr>field_name := new_name\<rparr> else r)
                                                 (variables d)\<rparr>
                                        else d);
                                  d2 = (case new_value of
                                          Some v \<Rightarrow>
                                            d1\<lparr>variables :=
                                                 map (\<lambda>r. if var_id r = var_id varrow
                                                           then r\<lparr>field_value := Some v\<rparr> else r)
                                                   (variables d1)\<rparr>
                                        | None \<Rightarrow> d1)
                              in (Variable_updated new_name product_name stage, d2))))
      | _ \<Rightarrow> (Error 400 ''product_name, old_field_name and (new_field_name or new_field_value) required'', d))"

text \<open>The uniqueness constraint of \<open>variables\<close>, and the rows of one key.\<close>

definition var_key :: "var_row \<Rightarrow> nat \<times> string \<times> string" where
  "var_key r = (var_product_id r, var_stage r, field_name r)"

definition vars_unique :: "database \<Rightarrow> bool" where
  "vars_unique d = distinct (map var_key (variables d))"

definition rows_of :: "database \<Rightarrow> nat \<Rightarrow> string \<Rightarrow> string \<Rightarrow> var_row list" where
  "rows_of d pid stage name = filter (var_matches pid stage name) (variables d)"

text \<open>The request \<open>upsertMany(p, s, fields)\<close>.\<close>

definition upsert_request :: "string \<Rightarrow> string \<Rightarrow> (string \<times> string option) list \<Rightarrow> save_fields_request" where
  "upsert_request p s vars =
     \<lparr>json_product_name = Some p, json_stage = Some s, query_stage = None,
      json_variables = Some vars\<rparr>"

text \<open>A database with the variables \<open>A\<close> and \<open>B\<close> of one product and stage, and a rename.\<close>

definition two_variables_db :: database where
  "two_variables_db =
     \<lparr>products = [(1, ''P'')],
      variables =
        [\<lparr>var_id = 1, var_product_id = 1, var_stage = ''Raw'', field_name = ''A'',
          field_value = Some ''1''\<rparr>,
         \<lparr>var_id = 2, var_product_id = 1, var_stage = ''Raw'', field_name = ''B'',
          field_value = Some ''2''\<rparr>],
      product_prns = [], next_product_id = 2, next_variable_id = 3, next_prn_id = 1\<rparr>"

definition rename_A_to_B :: update_variable_request where
  "rename_A_to_B =
     \<lparr>json_product_name = Some ''P'', json_stage = Some ''raw'', query_stage = None,
      old_field_name = Some ''A'', new_field_name = Some ''B'',
      new_field_value = Some (Some ''9'')\<rparr>"

subsection \<open>File names and paths\<close>

text \<open>\<open>s.split()\<close>: the maximal runs of characters that are not whitespace.\<close>

fun split_ws :: "string \<Rightarrow> string \<Rightarrow> string list" where
  "split_ws w [] = (if w = [] then [] else [w])"
| "split_ws w (c # cs) =
     (if py_isspace c then (if w = [] then split_ws [] cs else w # split_ws [] cs)
      else split_ws (w @ [c]) cs)"

definition py_split :: "string \<Rightarrow> string list" where
  "py_split s = split_ws [] s"

text \<open>\<open>sep.join(words)\<close>.\<close>

fun py_join :: "string \<Rightarrow> string list \<Rightarrow> string" where
  "py_join sep [] = []"
| "py_join sep [x] = x"
| "py_join sep (x # y # ys) = x @ sep @ py_join sep (y # ys)"

text \<open>
  \<open>unicodedata.normalize("NFKD", s).encode("ascii", "ignore")\<close> on one character: an
  ASCII character stays, and a code point from 128 to 255 becomes the ASCII part of its
  compatibility decomposition (the base letter of an accented letter, the digits of a
  superscript or a fraction, a blank for a spacing accent and the no-break space, nothing
  for the rest). The table lists the code points 128 to 255 in order.
\<close>

definition nfkd_ascii_table :: "string list" where
  "nfkd_ascii_table =
     [
      '''', '''', '''', '''', '''', '''', '''', '''',
      '''', '''', '''', '''', '''', '''', '''', '''',
      '''', '''', '''', '''', '''', '''', '''', '''',
      '''', '''', '''', '''', '''', '''', '''', '''',
      '' '', '''', '''', '''', '''', '''', '''', '''',
      '' '', '''', ''a'', '''', '''', '''', '''', '' '',
      '''', '''', ''2'', ''3'', '' '', '''', '''', '''',
      '' '', ''1'', ''o'', '''', ''14'', ''12'', ''34'', '''',
      ''A'', ''A'', ''A'', ''A'', ''A'', ''A'', '''', ''C'',
      ''E'', ''E'', ''E'', ''E'', ''I'', ''I'', ''I'', ''I'',
      '''', ''N'', ''O'', ''O'', ''O'', ''O'', ''O'', '''',
      '''', ''U'', ''U'', ''U'', ''U'', ''Y'', '''', '''',
      ''a'', ''a'', ''a'', ''a'', ''a'', ''a'', '''', ''c'',
      ''e'', ''e'', ''e'', ''e'', ''i'', ''i'', ''i'', ''i'',
      '''', ''n'', ''o'', ''o'', ''o'', ''o'', ''o'', '''',
      '''', ''u'', ''u'', ''u'', ''u'', ''y'', '''', ''y'']"

definition nfkd_ascii :: "char \<Rightarrow> string" where
  "nfkd_ascii c =
     (let n = (of_char c :: nat) in if n < 128 then [c] else nfkd_ascii_table ! (n - 128))"

text \<open>
  Werkzeug's \<open>secure_filename\<close> on a POSIX system: the name is folded to ASCII, every
  slash becomes a blank, the words are joined by underscores, only letters, digits,
  underscore, dot and hyphen are kept, and leading and trailing dots and underscores are
  removed.
\<close>

definition is_filename_char :: "char \<Rightarrow> bool" where
  "is_filename_char c = (is_word_char c \<or> c = CHR ''.'' \<or> c = CHR ''-'')"

definition secure_filename :: "string \<Rightarrow> string" where
  "secure_filename filename =
     (let ascii = concat (map nfkd_ascii filename);
          no_sep = map (\<lambda>c. if c = CHR ''/'' then CHR '' '' else c) ascii
      in strip_chars ''._'' (filter is_filename_char (py_join ''_'' (py_split no_sep))))"

text \<open>The class \<open>\w\<close> of a text pattern on the code points below 256.\<close>

definition is_unicode_word_char :: "char \<Rightarrow> bool" where
  "is_unicode_word_char c =
     (let n = (of_char c :: nat)
      in is_word_char c \<or> n = 170 \<or> n = 178 \<or> n = 179 \<or> n = 181 \<or> n = 185 \<or> n = 186
         \<or> (188 \<le> n \<and> n \<le> 190) \<or> (192 \<le> n \<and> n \<le> 214) \<or> (216 \<le> n \<and> n \<le> 246)
         \<or> 248 \<le> n)"

definition normalize_product_folder_name :: "string \<Rightarrow> string" where
  "normalize_product_folder_name product_name =
     (if product_name = [] then []
      else let safe = secure_filename product_name
           in if safe \<noteq> [] then safe
              else py_strip (map (\<lambda>c. if is_unicode_word_char c \<or> c \<in> set ''-_. '' then c
                                        else CHR ''_'') product_name))"

text \<open>\<open>os.path.join\<close> of \<open>posixpath\<close>: a component that starts with a slash restarts the path.\<close>

definition path_join2 :: "string \<Rightarrow> string \<Rightarrow> string" where
  "path_join2 a b =
     (if take 1 b = ''/'' then b
      else if a = [] \<or> last a = CHR ''/'' then a @ b
      else a @ ''/'' @ b)"

definition os_path_join :: "string \<Rightarrow> string list \<Rightarrow> string" where
  "os_path_join a ps = foldl path_join2 a ps"

text \<open>
  \<open>os.path.splitext\<close> of \<open>posixpath\<close>: the extension starts at the last dot of the last
  path component, unless only dots stand before it in that component.
\<close>

definition splitext :: "string \<Rightarrow> string \<times> string" where
  "splitext p =
     (let ext = rev (takeWhile (\<lambda>c. c \<noteq> CHR ''.'') (rev p))
      in if CHR ''.'' \<notin> set p \<or> CHR ''/'' \<in> set ext then (p, [])
         else let root = take (length p - length ext - 1) p;
                  name = rev (takeWhile (\<lambda>c. c \<noteq> CHR ''/'') (rev root))
              in if list_ex (\<lambda>c. c \<noteq> CHR ''.'') name then (root, drop (length root) p)
                 else (p, []))"

text \<open>\<open>str\<close> of an integer, in decimal.\<close>

function digits :: "nat \<Rightarrow> string" where
  "digits n = (if n < 10 then [''0123456789'' ! n] else digits (n div 10) @ [''0123456789'' ! (n mod 10)])"
  by pat_completeness auto
termination
  by (relation "measure id") auto

declare digits.simps [simp del]

definition str_int :: "int \<Rightarrow> string" where
  "str_int i = (if i < 0 then CHR ''-'' # digits (nat (- i)) else digits (nat i))"

definition ALLOWED_EXTENSIONS :: "string list" where
  "ALLOWED_EXTENSIONS = [''prn'']"

definition allowed_file :: "string \<Rightarrow> bool" where
  "allowed_file filename =
     (CHR ''.'' \<in> set filename
      \<and> py_lower (rev (takeWhile (\<lambda>c. c \<noteq> CHR ''.'') (rev filename))) \<in> set ALLOWED_EXTENSIONS)"

definition UPLOAD_FOLDER :: string where
  "UPLOAD_FOLDER = ''uploads''"


subsection \<open>The world of a request\<close>

text \<open>
  A handler works on the database and on the upload folder, and it calls the Labelary
  service. The upload folder is a map from paths to file contents (directories are not
  modelled: every path a handler tests or writes names a file, and \<open>makedirs\<close> succeeds).
  Contents are text; reading a file that was written returns what was written.
  \<open>renderer\<close> is the service: the image for the posted content, or \<open>None\<close> for a
  status other than 200, an error or a timeout. \<open>undeletable\<close> are the paths on which
  \<open>os.remove\<close> raises. \<open>effects\<close> records, in order, what a handler did to the
  outside: files written and removed, rows committed to and deleted from \<open>product_prns\<close>,
  requests to the service, warnings logged for a failed removal.
\<close>

datatype effect =
    File_saved string
  | Prn_registered string
  | Preview_requested string
  | Prn_deleted nat
  | File_removed string
  | Warning_logged

record world =
  db :: database
  disk :: "string \<rightharpoonup> string"
  renderer :: "string \<Rightarrow> string option"
  undeletable :: "string \<Rightarrow> bool"
  effects :: "effect list"

text \<open>
  \<open>generate_preview\<close>: \<open>False\<close> when the file cannot be opened (no request is sent),
  when the service fails, or on any exception; \<open>True\<close> after the image is written.
\<close>

definition generate_preview :: "world \<Rightarrow> string \<Rightarrow> string \<Rightarrow> bool \<times> world" where
  "generate_preview w prn_file out_path =
     (case disk w prn_file of
        None \<Rightarrow> (False, w)
      | Some content \<Rightarrow>
          let w1 = w\<lparr>effects := effects w @ [Preview_requested prn_file]\<rparr>
          in (case renderer w content of
                Some png \<Rightarrow> (True, w1\<lparr>disk := (disk w1)(out_path \<mapsto> png)\<rparr>)
              | None \<Rightarrow> (False, w1)))"

text \<open>
  \<open>INSERT INTO product_prns\<close> raises \<open>IntegrityError\<close>, here \<open>None\<close>, when a row for
  the product, the stage and the file name exists; the stage is always one of the three
  the \<open>CHECK\<close> constraint allows.
\<close>

definition prn_matches :: "nat \<Rightarrow> string \<Rightarrow> string \<Rightarrow> prn_row \<Rightarrow> bool" where
  "prn_matches pid stage fname r =
     (prn_product_id r = pid \<and> prn_stage r = stage \<and> prn_filename r = fname)"

definition insert_prn ::
  "database \<Rightarrow> nat \<Rightarrow> string \<Rightarrow> string \<Rightarrow> string \<Rightarrow> database option" where
  "insert_prn d pid stage fname path =
     (if list_ex (prn_matches pid stage fname) (product_prns d) then None
      else Some (d\<lparr>product_prns := product_prns d @
                     [\<lparr>prn_id = next_prn_id d, prn_product_id = pid, prn_stage = stage,
                       prn_filename = fname, prn_path = path, preview_path = None\<rparr>],
                   next_prn_id := Suc (next_prn_id d)\<rparr>))"

text \<open>\<open>UPDATE product_prns SET preview_path = ? WHERE product_id = ? AND stage = ? AND prn_filename = ?\<close>.\<close>

definition set_preview_path ::
  "database \<Rightarrow> nat \<Rightarrow> string \<Rightarrow> string \<Rightarrow> string \<Rightarrow> database" where
  "set_preview_path d pid stage fname preview =
     d\<lparr>product_prns :=
         map (\<lambda>r. if prn_matches pid stage fname r then r\<lparr>preview_path := Some preview\<rparr> else r)
           (product_prns d)\<rparr>"

subsection \<open>Artifact registry: upload\<close>

text \<open>
  The request of \<open>upload_file\<close>: the file part (its name and content) if there is one, the
  product name and the stage as the form or the query string gives them (empty when
  absent), and the value \<open>int(datetime.utcnow().timestamp())\<close> has during the request.
\<close>

record upload_request =
  upload_file_part :: "(string \<times> string) option"
  upload_product_name :: string
  upload_stage :: string
  upload_now :: int

text \<open>
  Lines 322 to 326: when a file stands at the path, the name gets the timestamp before
  its extension. The new name is not tested again.
\<close>

definition collision_safe_name :: "world \<Rightarrow> string \<Rightarrow> string \<Rightarrow> int \<Rightarrow> string" where
  "collision_safe_name w product_dir filename now =
     (if disk w (path_join2 product_dir filename) \<noteq> None
      then (case splitext filename of (base, ext) \<Rightarrow> base @ ''_'' @ str_int now @ ext)
      else filename)"

text \<open>
  Lines 339 to 380, after the file is saved and parsed: the product is created if it is
  new, the row is inserted and committed, the preview is requested once, and the row gets
  its preview path only when the preview succeeded. The answer's \<open>preview_url\<close> is read
  from the disk, not from the row.
\<close>

definition register_upload ::
  "world \<Rightarrow> string \<Rightarrow> string \<Rightarrow> string \<Rightarrow> string \<Rightarrow> string \<Rightarrow> string list
     \<Rightarrow> response \<times> world" where
  "register_upload w1 product_name stage product_dir filename save_path columns =
     (let d1 = insert_or_ignore_product (db w1) product_name
      in case select_product_id d1 product_name of
           None \<Rightarrow> (Error 500 ''failed to create or fetch product'', w1\<lparr>db := d1\<rparr>)
         | Some product_id \<Rightarrow>
             (case insert_prn d1 product_id stage filename save_path of
                None \<Rightarrow>
                  (Error 409 ''PRN registration failed (possible duplicate)'', w1\<lparr>db := d1\<rparr>)
              | Some d2 \<Rightarrow>
                  let w2 = w1\<lparr>db := d2, effects := effects w1 @ [Prn_registered filename]\<rparr>;
                      preview_full = path_join2 product_dir (fst (splitext filename) @ ''.png'');
                      (preview_ok, w3) = generate_preview w2 save_path preview_full;
                      w4 = (if preview_ok
                            then w3\<lparr>db := set_preview_path (db w3) product_id stage filename
                                             preview_full\<rparr>
                            else w3);
                      preview_url =
                        (if disk w4 preview_full \<noteq> None
                         then Some (''/preview/'' @ product_name @ ''/'' @ stage @ ''/'' @ filename)
                         else None)
                  in (Uploaded filename stage save_path columns preview_url, w4)))"

text \<open>
  \<open>upload_file\<close>. Writing the file and the database do not fail in this model, so the
  three answers with status 500 for a failed write are not reachable here.
\<close>

definition upload_file :: "world \<Rightarrow> upload_request \<Rightarrow> response \<times> world" where
  "upload_file w req =
     (case upload_file_part req of
        None \<Rightarrow> (Error 400 ''no file part'', w)
      | Some (raw_filename, content) \<Rightarrow>
          let product_name = py_strip (upload_product_name req)
          in if product_name = [] then (Error 400 ''product_name required'', w)
             else (case stage_folder_name (py_strip (upload_stage req)) of
                None \<Rightarrow> (Error 400 ''invalid or missing stage; allowed: Raw, SFG, FG'', w)
              | Some stage \<Rightarrow>
                  if raw_filename = [] then (Error 400 ''no selected file'', w)
                  else if \<not> allowed_file raw_filename
                  then (Error 400 ''only .prn files allowed'', w)
                  else
                    let product_dir =
                          os_path_join UPLOAD_FOLDER
                            [normalize_product_folder_name product_name, stage];
                        filename =
                          collision_safe_name w product_dir (secure_filename raw_filename)
                            (upload_now req);
                        save_path = path_join2 product_dir filename;
                        w1 = w\<lparr>disk := (disk w)(save_path \<mapsto> content),
                               effects := effects w @ [File_saved save_path]\<rparr>
                    in (case extract_prn_columns (disk w1) save_path of
                          Inl err \<Rightarrow> (Error 500 ''failed to parse file'', w1)
                        | Inr columns \<Rightarrow>
                            register_upload w1 product_name stage product_dir filename
                              save_path columns)))"

subsection \<open>Artifact registry: delete\<close>





subsection \<open>Example states\<close>

text \<open>
  The world before any request (with a service that always fails), the upload of a file
  \<open>a.prn\<close> for the product \<open>P\<close> and the stage \<open>raw\<close>, and the worlds after one and after
  two such uploads, in the seconds 1700000000 and 1700000001 (the second upload finds the
  product, and its ignored \<open>INSERT\<close> advances the sequence of \<open>products\<close>).
\<close>

definition empty_world :: world where
  "empty_world = \<lparr>db = empty_db, disk = Map.empty, renderer = (\<lambda>_. None),
     undeletable = (\<lambda>_. False), effects = []\<rparr>"

definition upload_a :: "string \<Rightarrow> int \<Rightarrow> upload_request" where
  "upload_a content now =
     \<lparr>upload_file_part = Some (''a.prn'', content), upload_product_name = ''P'',
      upload_stage = ''raw'', upload_now = now\<rparr>"

definition world_one :: world where
  "world_one =
     \<lparr>db = \<lparr>products = [(1, ''P'')], variables = [],
             product_prns =
               [\<lparr>prn_id = 1, prn_product_id = 1, prn_stage = ''Raw'', prn_filename = ''a.prn'',
                 prn_path = ''uploads/P/Raw/a.prn'', preview_path = None\<rparr>],
             next_product_id = 2, next_variable_id = 1, next_prn_id = 2\<rparr>,
      disk = [''uploads/P/Raw/a.prn'' \<mapsto> ''one''],
      renderer = (\<lambda>_. None), undeletable = (\<lambda>_. False),
      effects = [File_saved ''uploads/P/Raw/a.prn'', Prn_registered ''a.prn'',
                 Preview_requested ''uploads/P/Raw/a.prn'']\<rparr>"

definition world_two :: world where
  "world_two =
     \<lparr>db = \<lparr>products = [(1, ''P'')], variables = [],
             product_prns =
               [\<lparr>prn_id = 1, prn_product_id = 1, prn_stage = ''Raw'', prn_filename = ''a.prn'',
                 prn_path = ''uploads/P/Raw/a.prn'', preview_path = None\<rparr>,
                \<lparr>prn_id = 2, prn_product_id = 1, prn_stage = ''Raw'',
                 prn_filename = ''a_1700000001.prn'', prn_path = ''uploads/P/Raw/a_1700000001.prn'',
                 preview_path = None\<rparr>],
             next_product_id = 3, next_variable_id = 1, next_prn_id = 3\<rparr>,
      disk = [''uploads/P/Raw/a.prn'' \<mapsto> ''one'', ''uploads/P/Raw/a_1700000001.prn'' \<mapsto> ''two''],
      renderer = (\<lambda>_. None), undeletable = (\<lambda>_. False),
      effects = [File_saved ''uploads/P/Raw/a.prn'', Prn_registered ''a.prn'',
                 Preview_requested ''uploads/P/Raw/a.prn'',
                 File_saved ''uploads/P/Raw/a_1700000001.prn'', Prn_registered ''a_1700000001.prn'',
                 Preview_requested ''uploads/P/Raw/a_1700000001.prn'']\<rparr>"

text \<open>An answer without its preview link, and the requests a world has sent to the service.\<close>

fun registration :: "response \<Rightarrow> response" where
  "registration (Uploaded fn st p cols url) = Uploaded fn st p cols None"
| "registration r = r"

fun is_preview_request :: "effect \<Rightarrow> bool" where
  "is_preview_request (Preview_requested p) = True"
| "is_preview_request e = False"

definition preview_requests :: "world \<Rightarrow> nat" where
  "preview_requests w = length (filter is_preview_request (effects w))"






section \<open>Properties\<close>

subsection \<open>Stage normalizer\<close>

lemma py_lower_strip_Nil: "py_lower (py_strip []) = []"
  by (simp add: py_lower_def py_strip_def)

lemma canonical_is_alias:
  "s \<in> set ALLOWED_STAGES \<Longrightarrow> py_lower (py_strip s) \<in> {''raw'', ''sfg'', ''fg''}"
  by (auto simp: ALLOWED_STAGES_def py_lower_def py_strip_def py_isspace_def py_lower_char_def)

lemma stage_raw_iff:
  "(stage_folder_name s = Some ''Raw'') =
     (py_lower (py_strip s) \<in> {''raw'', ''rawmaterial'', ''raw_material'', ''raw material''})"
  using canonical_is_alias[of s] py_lower_strip_Nil
  by (cases "s = []") (auto simp: stage_folder_name_def Let_def)

lemma stage_sfg_iff:
  "(stage_folder_name s = Some ''SFG'') =
     (py_lower (py_strip s) \<in> {''sfg'', ''semi'', ''semi_finished'', ''semi_finished_good'',
                               ''semi finished'', ''semi-finished'', ''semifinished''})"
  using canonical_is_alias[of s] py_lower_strip_Nil
  by (cases "s = []") (auto simp: stage_folder_name_def Let_def)

lemma stage_fg_iff:
  "(stage_folder_name s = Some ''FG'') =
     (py_lower (py_strip s) \<in> {''fg'', ''finished'', ''finished_good'', ''finished good'',
                               ''finished-good''})"
  using canonical_is_alias[of s] py_lower_strip_Nil
  by (cases "s = []") (auto simp: stage_folder_name_def Let_def)

lemma stage_folder_name_range:
  "stage_folder_name s \<in> {None, Some ''Raw'', Some ''SFG'', Some ''FG''}"
  by (auto simp: stage_folder_name_def Let_def ALLOWED_STAGES_def)

text \<open>
  C2, as the code has it. After trimming whitespace and lower-casing, the normalizer maps
  exactly \<open>raw\<close>, \<open>rawmaterial\<close>, \<open>raw_material\<close>, \<open>raw material\<close> to \<open>Raw\<close>; exactly
  \<open>sfg\<close>, \<open>semi\<close>, \<open>semi_finished\<close>, \<open>semi_finished_good\<close>, \<open>semi finished\<close>,
  \<open>semi-finished\<close>, \<open>semifinished\<close> to \<open>SFG\<close>; and exactly \<open>fg\<close>, \<open>finished\<close>,
  \<open>finished_good\<close>, \<open>finished good\<close>, \<open>finished-good\<close> to \<open>FG\<close>. The canonical forms
  are among these once lower-cased. Every other input, the empty string included, yields
  \<open>None\<close>; the function is total, so it never raises.
\<close>

theorem stage_folder_name_aliases:
  "(stage_folder_name s = Some ''Raw'') =
     (py_lower (py_strip s) \<in> {''raw'', ''rawmaterial'', ''raw_material'', ''raw material''})
   \<and> (stage_folder_name s = Some ''SFG'') =
     (py_lower (py_strip s) \<in> {''sfg'', ''semi'', ''semi_finished'', ''semi_finished_good'',
                               ''semi finished'', ''semi-finished'', ''semifinished''})
   \<and> (stage_folder_name s = Some ''FG'') =
     (py_lower (py_strip s) \<in> {''fg'', ''finished'', ''finished_good'', ''finished good'',
                               ''finished-good''})
   \<and> stage_folder_name s \<in> {None, Some ''Raw'', Some ''SFG'', Some ''FG''}
   \<and> stage_folder_name [] = None"
  using stage_raw_iff[of s] stage_sfg_iff[of s] stage_fg_iff[of s] stage_folder_name_range[of s]
  by (simp add: stage_folder_name_def)

text \<open>
  C2 as the specification states it fails: \<open>semi\<close>, \<open>finished\<close> and \<open>rawmaterial\<close> are
  none of the documented inputs, yet each is mapped to a stage instead of \<open>None\<close>.
\<close>

theorem stage_folder_name_undocumented_alias:
  "''semi'' \<notin> set documented_stage_inputs
   \<and> stage_folder_name ''semi'' = Some ''SFG''
   \<and> ''finished'' \<notin> set documented_stage_inputs
   \<and> stage_folder_name ''finished'' = Some ''FG''
   \<and> ''rawmaterial'' \<notin> set documented_stage_inputs
   \<and> stage_folder_name ''rawmaterial'' = Some ''Raw''"
  by (simp add: documented_stage_inputs_def stage_folder_name_def py_lower_def py_strip_def
      py_isspace_def py_lower_char_def)

subsection \<open>Placeholder extractor\<close>

lemma brace_not_word: "\<not> is_word_char CHR ''{''" "\<not> is_word_char CHR ''}''"
  by (simp_all add: is_word_char_def)

lemma scan_word_run:
  assumes "list_all is_word_char n" "\<not> is_word_char d"
  shows "takeWhile is_word_char (n @ d # r) = n" "dropWhile is_word_char (n @ d # r) = d # r"
  using assms by (simp_all add: list_all_iff takeWhile_append2 dropWhile_append2)

text \<open>
  A token that starts behind the head of the text starts behind a match at the head too:
  the match is an opening brace, word characters and a closing brace, and a token starts
  with an opening brace.
\<close>

lemma scan_skip:
  assumes "cs = pre @ CHR ''{'' # n @ CHR ''}'' # post"
    and "take 1 (dropWhile is_word_char cs) = ''}''"
  shows "\<exists>pre'. drop 1 (dropWhile is_word_char cs) = pre' @ CHR ''{'' # n @ CHR ''}'' # post"
proof (cases "\<forall>x\<in>set pre. is_word_char x")
  case True
  then have "dropWhile is_word_char cs = CHR ''{'' # n @ CHR ''}'' # post"
    using assms(1) brace_not_word by (simp add: dropWhile_append2)
  with assms(2) show ?thesis by simp
next
  case False
  then obtain x where x: "x \<in> set pre" "\<not> is_word_char x" by blast
  then have d: "dropWhile is_word_char cs
      = dropWhile is_word_char pre @ CHR ''{'' # n @ CHR ''}'' # post"
    using assms(1) by (simp add: dropWhile_append1)
  from x have "dropWhile is_word_char pre \<noteq> []" by (auto simp: dropWhile_eq_Nil_conv)
  then obtain y ys where "dropWhile is_word_char pre = y # ys"
    by (cases "dropWhile is_word_char pre") auto
  with d show ?thesis by simp
qed

lemma findall_set:
  "set (findall_placeholders t) =
     {CHR ''{'' # n @ ''}'' | n. n \<noteq> [] \<and> list_all is_word_char n \<and> occurs n t}"
proof (induction t rule: findall_placeholders.induct)
  case 1
  show ?case by (simp add: occurs_def)
next
  case (2 c cs)
  let ?w = "takeWhile is_word_char cs"
  let ?r = "dropWhile is_word_char cs"
  let ?m = "c = CHR ''{'' \<and> ?w \<noteq> [] \<and> take 1 ?r = ''}''"
  let ?T = "\<lambda>t. {CHR ''{'' # n @ ''}'' | n. n \<noteq> [] \<and> list_all is_word_char n \<and> occurs n t}"
  show ?case
  proof (cases ?m)
    case True
    then obtain rest where r: "?r = CHR ''}'' # rest" by (cases ?r) auto
    have cs: "cs = ?w @ CHR ''}'' # rest"
      using r takeWhile_dropWhile_id[of is_word_char cs] by simp
    have w: "list_all is_word_char ?w" by (simp add: list_all_iff) (meson set_takeWhileD)
    have IH: "set (findall_placeholders rest) = ?T rest" using 2(1) True r by simp
    have f: "findall_placeholders (c # cs) = (c # ?w @ ''}'') # findall_placeholders rest"
      using True r by simp
    have "?T (c # cs) = insert (c # ?w @ ''}'') (?T rest)"
    proof (intro equalityI subsetI)
      fix x assume "x \<in> ?T (c # cs)"
      then obtain n pre post where n: "x = CHR ''{'' # n @ ''}''" "n \<noteq> []"
        "list_all is_word_char n" "c # cs = pre @ CHR ''{'' # n @ CHR ''}'' # post"
        by (auto simp: occurs_def)
      show "x \<in> insert (c # ?w @ ''}'') (?T rest)"
      proof (cases pre)
        case Nil
        with n(4) have "cs = n @ CHR ''}'' # post" by simp
        then have "?w = n" using scan_word_run(1)[OF n(3) brace_not_word(2)] by simp
        with n(1) True show ?thesis by simp
      next
        case (Cons p pre')
        with n(4) have "cs = pre' @ CHR ''{'' # n @ CHR ''}'' # post" by simp
        from scan_skip[OF this] True r
        obtain pre2 where "rest = pre2 @ CHR ''{'' # n @ CHR ''}'' # post" by auto
        then have "occurs n rest" unfolding occurs_def by blast
        with n show ?thesis by blast
      qed
    next
      fix x assume "x \<in> insert (c # ?w @ ''}'') (?T rest)"
      then consider "x = c # ?w @ ''}''" | "x \<in> ?T rest" by blast
      then show "x \<in> ?T (c # cs)"
      proof cases
        case 1
        have "occurs ?w (c # cs)" unfolding occurs_def using cs True by (metis append_Nil)
        with 1 True w show ?thesis by blast
      next
        case 2
        then obtain n pre post where n: "x = CHR ''{'' # n @ ''}''" "n \<noteq> []"
          "list_all is_word_char n" "rest = pre @ CHR ''{'' # n @ CHR ''}'' # post"
          by (auto simp: occurs_def)
        have "c # cs = (c # ?w @ CHR ''}'' # pre) @ CHR ''{'' # n @ CHR ''}'' # post"
          using cs n(4) by simp
        then have "occurs n (c # cs)" unfolding occurs_def by blast
        with n show ?thesis by blast
      qed
    qed
    with f IH show ?thesis by simp
  next
    case False
    have IH: "set (findall_placeholders cs) = ?T cs" using 2(2) False by simp
    have f: "findall_placeholders (c # cs) = findall_placeholders cs" using False by auto
    have "?T (c # cs) = ?T cs"
    proof (intro equalityI subsetI)
      fix x assume "x \<in> ?T (c # cs)"
      then obtain n pre post where n: "x = CHR ''{'' # n @ ''}''" "n \<noteq> []"
        "list_all is_word_char n" "c # cs = pre @ CHR ''{'' # n @ CHR ''}'' # post"
        by (auto simp: occurs_def)
      show "x \<in> ?T cs"
      proof (cases pre)
        case Nil
        with n(4) have c: "c = CHR ''{''" "cs = n @ CHR ''}'' # post" by simp_all
        have "?w = n" "?r = CHR ''}'' # post"
          using scan_word_run[OF n(3) brace_not_word(2)] c(2) by simp_all
        with c n(2) False show ?thesis by simp
      next
        case (Cons p pre')
        with n(4) have "occurs n cs" unfolding occurs_def by auto
        with n show ?thesis by blast
      qed
    next
      fix x assume "x \<in> ?T cs"
      then obtain n pre post where n: "x = CHR ''{'' # n @ ''}''" "n \<noteq> []"
        "list_all is_word_char n" "cs = pre @ CHR ''{'' # n @ CHR ''}'' # post"
        by (auto simp: occurs_def)
      then have "c # cs = (c # pre) @ CHR ''{'' # n @ CHR ''}'' # post" by simp
      then have "occurs n (c # cs)" unfolding occurs_def by blast
      with n show "x \<in> ?T (c # cs)" by blast
    qed
    with f IH show ?thesis by simp
  qed
qed

lemma strip_braces_token:
  assumes "n \<noteq> []" "list_all is_word_char n"
  shows "strip_chars ''{}'' (CHR ''{'' # n @ ''}'') = n"
proof -
  have h: "\<not> (hd n = CHR ''{'' \<or> hd n = CHR ''}'')" "\<not> (last n = CHR ''{'' \<or> last n = CHR ''}'')"
    using assms brace_not_word by (auto simp: list_all_iff dest: hd_in_set last_in_set)
  from assms(1) obtain a as where a: "n = a # as" by (cases n) auto
  from assms(1) obtain bs b where b: "n = bs @ [b]" by (cases n rule: rev_cases) auto
  have 1: "dropWhile (\<lambda>c. c \<in> set ''{}'') (CHR ''{'' # n @ ''}'') = n @ ''}''"
    using h(1) a by auto
  have 2: "dropWhile (\<lambda>c. c \<in> set ''{}'') (rev (n @ ''}'')) = rev n"
    using h(2) b by auto
  show ?thesis unfolding strip_chars_def 1 2 by simp
qed

lemma extract_fields_set:
  "set (extract_fields t) = {n. n \<noteq> [] \<and> list_all is_word_char n \<and> occurs n t}"
proof -
  let ?T = "{CHR ''{'' # n @ ''}'' | n. n \<noteq> [] \<and> list_all is_word_char n \<and> occurs n t}"
  let ?N = "{n. n \<noteq> [] \<and> list_all is_word_char n \<and> occurs n t}"
  have T: "?T = (\<lambda>n. CHR ''{'' # n @ ''}'') ` ?N" by blast
  have "set (extract_fields t) = strip_chars ''{}'' ` set (findall_placeholders t)"
    by (simp add: extract_fields_def)
  also have "\<dots> = strip_chars ''{}'' ` (\<lambda>n. CHR ''{'' # n @ ''}'') ` ?N"
    unfolding findall_set T ..
  also have "\<dots> = (\<lambda>n. n) ` ?N"
    unfolding image_image by (rule image_cong) (simp_all add: strip_braces_token)
  finally show ?thesis by simp
qed

lemma extract_fields_example: "extract_fields ''A {X} B {Y} {X}'' = [''X'', ''Y'']"
  by (simp add: extract_fields_def strip_chars_def is_word_char_def)

text \<open>
  C7. For every text, \<open>extract_fields\<close> returns a list in ascending lexicographic order
  without duplicates whose elements are exactly the names \<open>n\<close>, one or more ASCII letters,
  digits or underscores, for which the token \<open>{n}\<close> stands somewhere in the text. So the
  result is empty exactly when the text holds no such token, and the text
  \<open>A {X} B {Y} {X}\<close> yields \<open>X\<close>, \<open>Y\<close>. \<open>extract_prn_columns\<close> returns this list for the
  text of the file it is given.
\<close>

theorem extract_fields_correct:
  "sorted (extract_fields t) \<and> distinct (extract_fields t)
   \<and> set (extract_fields t) = {n. n \<noteq> [] \<and> list_all is_word_char n \<and> occurs n t}
   \<and> (extract_fields t = []) = (\<nexists>n. n \<noteq> [] \<and> list_all is_word_char n \<and> occurs n t)
   \<and> extract_fields ''A {X} B {Y} {X}'' = [''X'', ''Y'']
   \<and> extract_prn_columns (files(p \<mapsto> t)) p = Inr (extract_fields t)"
proof -
  have s: "sorted (extract_fields t)" "distinct (extract_fields t)"
    by (simp_all add: extract_fields_def)
  have e: "(extract_fields t = []) = (set (extract_fields t) = {})" by simp
  show ?thesis
    using s extract_fields_example
    unfolding e extract_fields_set by (auto simp: extract_prn_columns_def)
qed

subsection \<open>Template substitution engine\<close>

lemma parse_template_plain:
  "backslash \<notin> set v \<Longrightarrow> parse_template v = Inr (map Literal v)"
  by (induction v) auto

lemma expand_template_plain: "expand_template (map Literal v) m = v"
  by (induction v) (auto simp: expand_template_def)

lemma re_sub_placeholder_plain:
  "backslash \<notin> set v \<Longrightarrow> re_sub_placeholder k v t = Inr (sub_literal (placeholder k) v t)"
  by (simp add: re_sub_placeholder_def parse_template_plain expand_template_plain)

lemma sub_literal_skip:
  "CHR ''{'' \<notin> set s \<Longrightarrow>
     sub_literal (placeholder k) v (s @ r) = s @ sub_literal (placeholder k) v r"
  by (induction s) (auto simp: placeholder_def)

lemma sub_literal_hit:
  "sub_literal (placeholder k) v (placeholder k @ r) = v @ sub_literal (placeholder k) v r"
  by (simp add: placeholder_def)

lemma takeWhile_until:
  "x \<notin> set n \<Longrightarrow> takeWhile (\<lambda>c. c \<noteq> x) (n @ x # r) = n"
  by (induction n) auto

lemma template_text_simps:
  "template_text [] = []"
  "template_text (seg # segs) = segment_text seg @ template_text segs"
  by (simp_all add: template_text_def)

lemma render_simultaneous_simps:
  "render_simultaneous m [] = []"
  "render_simultaneous m (seg # segs) = render_segment m seg @ render_simultaneous m segs"
  by (simp_all add: render_simultaneous_def)

lemma placeholder_prefix_same:
  assumes "brace_free k" "brace_free n"
    and "take (length (placeholder k)) (placeholder n @ r) = placeholder k"
  shows "n = k"
proof -
  have "placeholder n @ r = placeholder k @ drop (length (placeholder k)) (placeholder n @ r)"
    using assms(3) append_take_drop_id[of "length (placeholder k)" "placeholder n @ r"] by simp
  then obtain r' where "n @ CHR ''}'' # r = k @ CHR ''}'' # r'"
    by (auto simp: placeholder_def)
  then have "takeWhile (\<lambda>c. c \<noteq> CHR ''}'') (n @ CHR ''}'' # r)
           = takeWhile (\<lambda>c. c \<noteq> CHR ''}'') (k @ CHR ''}'' # r')" by simp
  moreover have "takeWhile (\<lambda>c. c \<noteq> CHR ''}'') (n @ CHR ''}'' # r) = n"
    using assms(2) by (simp add: brace_free_def takeWhile_until)
  moreover have "takeWhile (\<lambda>c. c \<noteq> CHR ''}'') (k @ CHR ''}'' # r') = k"
    using assms(1) by (simp add: brace_free_def takeWhile_until)
  ultimately show ?thesis by simp
qed

lemma sub_literal_miss:
  assumes "brace_free k" "brace_free n" "n \<noteq> k"
  shows "sub_literal (placeholder k) v (placeholder n @ r)
         = placeholder n @ sub_literal (placeholder k) v r"
proof -
  have no: "take (length (placeholder k)) (placeholder n @ r) \<noteq> placeholder k"
    using placeholder_prefix_same[OF assms(1,2)] assms(3) by blast
  have "placeholder n @ r = CHR ''{'' # (n @ ''}'') @ r" by (simp add: placeholder_def)
  then have "sub_literal (placeholder k) v (placeholder n @ r)
      = CHR ''{'' # sub_literal (placeholder k) v ((n @ ''}'') @ r)"
    using no by (simp del: append_assoc)
  also have "\<dots> = CHR ''{'' # (n @ ''}'') @ sub_literal (placeholder k) v r"
    using assms(2) by (subst sub_literal_skip) (simp_all add: brace_free_def)
  finally show ?thesis by (simp add: placeholder_def)
qed

lemma subst_segment_simps:
  "subst_segment k v (Text s) = Text s"
  "subst_segment k v (Placeholder k) = Text v"
  "n \<noteq> k \<Longrightarrow> subst_segment k v (Placeholder n) = Placeholder n"
  by (simp_all add: subst_segment_def)

lemma sub_literal_segments:
  assumes "brace_free k" "list_all wf_segment segs"
  shows "sub_literal (placeholder k) v (template_text segs)
         = template_text (map (subst_segment k v) segs)"
  using assms(2)
proof (induction segs)
  case Nil
  show ?case by (simp add: template_text_simps)
next
  case (Cons seg segs)
  then have IH: "sub_literal (placeholder k) v (template_text segs)
         = template_text (map (subst_segment k v) segs)" by simp
  have t: "template_text (seg # segs) = segment_text seg @ template_text segs"
    by (simp add: template_text_def)
  show ?case
  proof (cases seg)
    case (Text s)
    with Cons.prems have "CHR ''{'' \<notin> set s" by (simp add: brace_free_def)
    then show ?thesis using IH Text
      by (simp add: template_text_simps sub_literal_skip subst_segment_simps)
  next
    case (Placeholder n)
    with Cons.prems have n: "brace_free n" by simp
    show ?thesis
    proof (cases "n = k")
      case True
      then show ?thesis using IH Placeholder
        by (simp add: template_text_simps sub_literal_hit subst_segment_simps)
    next
      case False
      then show ?thesis using IH Placeholder sub_literal_miss[OF assms(1) n False]
        by (simp add: template_text_simps subst_segment_simps)
    qed
  qed
qed

lemma fill_loop_segments:
  assumes "list_all plain_binding vars" "set ks \<subseteq> fst ` set vars" "list_all wf_segment segs"
  shows "fill_loop vars ks (template_text segs)
         = Inr (template_text (map (resolve_segment vars ks) segs))"
  using assms(2,3)
proof (induction ks arbitrary: segs)
  case Nil
  have "map (resolve_segment vars []) segs = segs"
    by (rule map_idI) (case_tac x, simp_all)
  then show ?case by simp
next
  case (Cons k ks)
  let ?v = "case map_of vars k of Some x \<Rightarrow> value_text x | None \<Rightarrow> []"
  from Cons.prems(1) obtain x where kx: "(k, x) \<in> set vars" by auto
  then have pk: "brace_free k" using assms(1) by (auto simp: list_all_iff plain_binding_def)
  have pv: "brace_free ?v \<and> backslash \<notin> set ?v"
  proof (cases "map_of vars k")
    case None
    then show ?thesis by (simp add: brace_free_def)
  next
    case (Some y)
    then have "(k, y) \<in> set vars" by (rule map_of_SomeD)
    then show ?thesis using assms(1) Some by (auto simp: list_all_iff plain_binding_def)
  qed
  have wf': "list_all wf_segment (map (subst_segment k ?v) segs)"
    using Cons.prems(2) pv by (auto simp: list_all_iff subst_segment_def)
  have "fill_loop vars (k # ks) (template_text segs)
      = fill_loop vars ks (template_text (map (subst_segment k ?v) segs))"
    using pv by (simp add: re_sub_placeholder_plain sub_literal_segments[OF pk Cons.prems(2)])
  also have "\<dots> = Inr (template_text (map (resolve_segment vars ks) (map (subst_segment k ?v) segs)))"
    using Cons.IH[OF _ wf'] Cons.prems(1) by simp
  also have "map (resolve_segment vars ks) (map (subst_segment k ?v) segs)
      = map (resolve_segment vars (k # ks)) segs"
    unfolding map_map by (rule map_cong[OF refl]) (case_tac x, auto simp: subst_segment_def)
  finally show ?case .
qed

lemma set_fill_order: "set (fill_order vars) = fst ` set vars"
  by (simp add: fill_order_def)

lemma resolve_all_segments:
  assumes "set ks = fst ` set vars"
  shows "template_text (map (resolve_segment vars ks) segs) = render_simultaneous (map_of vars) segs"
proof (induction segs)
  case Nil
  show ?case by (simp add: template_text_simps render_simultaneous_simps)
next
  case (Cons seg segs)
  have "segment_text (resolve_segment vars ks seg) = render_segment (map_of vars) seg"
  proof (cases seg)
    case (Text s) then show ?thesis by simp
  next
    case (Placeholder n)
    show ?thesis
    proof (cases "map_of vars n")
      case None
      then have "n \<notin> fst ` set vars" by (simp add: map_of_eq_None_iff)
      with None Placeholder assms show ?thesis by simp
    next
      case (Some y)
      then have "n \<in> fst ` set vars" by (metis map_of_eq_None_iff option.distinct(1))
      with Some Placeholder assms show ?thesis by simp
    qed
  qed
  with Cons show ?case by (simp add: template_text_simps render_simultaneous_simps)
qed

lemma fill_prn_content_segments:
  assumes "list_all plain_binding vars" "list_all wf_segment segs"
  shows "fill_prn_content (template_text segs) vars = Inr (render_simultaneous (map_of vars) segs)"
  unfolding fill_prn_content_def
  using fill_loop_segments[OF assms(1) _ assms(2), of "fill_order vars"]
    resolve_all_segments[of "fill_order vars" vars segs]
  by (simp add: set_fill_order)

lemmas fill_eval = fill_prn_content_def fill_order_def re_sub_placeholder_def placeholder_def
  expand_template_def backslash_def parse_escape_def is_digit_def is_ascii_letter_def
  is_oct_digit_def

lemma fill_example_hello:
  "fill_prn_content ''Hello {NAME}, qty {QTY}'' [(''NAME'', Some ''Box''), (''QTY'', Some ''5'')]
     = Inr ''Hello Box, qty 5''"
  by (simp add: fill_eval)

lemma fill_example_unbound: "fill_prn_content ''{NAME}'' [] = Inr ''{NAME}''"
  by (simp add: fill_eval)

text \<open>
  C3, as the code has it. Take a template that is a sequence of plain text and
  placeholders \<open>{NAME}\<close> with no stray brace (none in the text, none in a name), and a
  field map whose names have no brace and whose values have no brace and no backslash.
  Then \<open>_fill_prn_content\<close> returns the template with every placeholder of a bound name
  replaced by the value (\<open>None\<close> as the empty string) and every placeholder of an unbound
  name left as it is; a field bound in the map and absent from the template changes
  nothing. The two renders of the specification are instances.
\<close>

theorem fill_prn_content_plain:
  assumes "list_all plain_binding vars" "list_all wf_segment segs"
  shows "fill_prn_content (template_text segs) vars
           = Inr (render_simultaneous (map_of vars) segs)
         \<and> fill_prn_content ''Hello {NAME}, qty {QTY}''
             [(''NAME'', Some ''Box''), (''QTY'', Some ''5'')] = Inr ''Hello Box, qty 5''
         \<and> fill_prn_content ''{NAME}'' [] = Inr ''{NAME}''"
  using fill_prn_content_segments[OF assms] fill_example_hello fill_example_unbound by simp

text \<open>
  An instance: a bound field, a field bound to \<open>None\<close>, an unbound placeholder and a
  field the template does not use.
\<close>

theorem fill_prn_content_plain_witness:
  "list_all plain_binding [(''NAME'', Some ''Box''), (''QTY'', None), (''UNUSED'', Some ''x'')]
   \<and> list_all wf_segment [Text ''Hello '', Placeholder ''NAME'', Text '', qty '',
        Placeholder ''QTY'', Text ''!'', Placeholder ''LOT'']
   \<and> fill_prn_content ''Hello {NAME}, qty {QTY}!{LOT}''
        [(''NAME'', Some ''Box''), (''QTY'', None), (''UNUSED'', Some ''x'')]
      = Inr ''Hello Box, qty !{LOT}''"
proof -
  have b: "list_all plain_binding [(''NAME'', Some ''Box''), (''QTY'', None), (''UNUSED'', Some ''x'')]"
    by (simp add: plain_binding_def brace_free_def backslash_def)
  have w: "list_all wf_segment [Text ''Hello '', Placeholder ''NAME'', Text '', qty '',
        Placeholder ''QTY'', Text ''!'', Placeholder ''LOT'']"
    by (simp add: brace_free_def)
  show ?thesis
    using b w fill_prn_content_plain[OF b w]
    by (simp add: template_text_def render_simultaneous_def placeholder_def)
qed

text \<open>
  C3 as the specification states it fails, on four inputs, each set beside the render the
  specification describes. A value that holds the placeholder of another bound field is
  substituted again, although that field is absent from the template. A backslash in a
  value is read as an escape: backslash and \<open>n\<close> become a line feed. A value with an
  escape that does not parse raises, also for a field the template does not use. And with
  a stray brace in the template, a substitution can form a placeholder that the next
  substitution replaces.
\<close>

theorem fill_prn_content_not_simultaneous:
  "fill_prn_content (template_text [Placeholder ''NAME''])
      [(''NAME'', Some ''{QTY}''), (''QTY'', Some ''5'')] = Inr ''5''
   \<and> render_simultaneous (map_of [(''NAME'', Some ''{QTY}''), (''QTY'', Some ''5'')])
      [Placeholder ''NAME''] = ''{QTY}''
   \<and> fill_prn_content (template_text [Placeholder ''NAME''])
      [(''NAME'', Some [CHR ''a'', backslash, CHR ''n'', CHR ''b''])]
      = Inr [CHR ''a'', CHR 0x0A, CHR ''b'']
   \<and> render_simultaneous (map_of [(''NAME'', Some [CHR ''a'', backslash, CHR ''n'', CHR ''b''])])
      [Placeholder ''NAME''] = [CHR ''a'', backslash, CHR ''n'', CHR ''b'']
   \<and> fill_prn_content (template_text [Text ''plain text''])
      [(''NAME'', Some [CHR ''N'', backslash, CHR ''A''])] = Inl Bad_escape
   \<and> render_simultaneous (map_of [(''NAME'', Some [CHR ''N'', backslash, CHR ''A''])])
      [Text ''plain text''] = ''plain text''
   \<and> fill_prn_content (template_text [Text ''{X'', Placeholder ''AB'', Text ''}''])
      [(''AB'', None), (''X'', Some ''v'')] = Inr ''v''
   \<and> render_simultaneous (map_of [(''AB'', None), (''X'', Some ''v'')])
      [Text ''{X'', Placeholder ''AB'', Text ''}''] = ''{X}''"
  by (simp add: fill_eval template_text_def render_simultaneous_def)



text \<open>
  C10. Substitution is sequential: with two bound fields whose values hold no backslash,
  the result is the substitution of the shorter name applied to the text that the
  substitution of the longer name has produced, in either insertion order of the map. So a
  template that is the placeholder of the longer name, bound to the placeholder of the
  shorter name, renders as the value of the shorter name; the fields \<open>AB = {A}\<close>,
  \<open>A = 1\<close> turn \<open>{AB}\<close> into \<open>1\<close>.
\<close>

theorem fill_prn_content_sequential:
  assumes "length k2 < length k1" "backslash \<notin> set v1" "backslash \<notin> set v2"
  shows "fill_prn_content t [(k1, Some v1), (k2, Some v2)]
           = Inr (sub_literal (placeholder k2) v2 (sub_literal (placeholder k1) v1 t))
         \<and> fill_prn_content t [(k2, Some v2), (k1, Some v1)]
           = Inr (sub_literal (placeholder k2) v2 (sub_literal (placeholder k1) v1 t))
         \<and> (backslash \<notin> set k2 \<longrightarrow>
              fill_prn_content (placeholder k1) [(k1, Some (placeholder k2)), (k2, Some v2)]
                = Inr v2)
         \<and> fill_prn_content ''{AB}'' [(''AB'', Some ''{A}''), (''A'', Some ''1'')] = Inr ''1''"
proof -
  from assms(1) have ne: "k1 \<noteq> k2" "k2 \<noteq> k1" by auto
  have o1: "fill_order [(k1, x), (k2, y)] = [k1, k2]" for x y
    using assms(1) by (simp add: fill_order_def)
  have o2: "fill_order [(k2, y), (k1, x)] = [k1, k2]" for x y
    using assms(1) by (simp add: fill_order_def)
  have a: "fill_prn_content t [(k1, Some v1), (k2, Some v2)]
           = Inr (sub_literal (placeholder k2) v2 (sub_literal (placeholder k1) v1 t))"
    using assms(2,3) ne by (simp add: fill_prn_content_def o1 re_sub_placeholder_plain)
  have b: "fill_prn_content t [(k2, Some v2), (k1, Some v1)]
           = Inr (sub_literal (placeholder k2) v2 (sub_literal (placeholder k1) v1 t))"
    using assms(2,3) ne by (simp add: fill_prn_content_def o2 re_sub_placeholder_plain)
  have h: "sub_literal (placeholder k) v (placeholder k) = v" for k v
    using sub_literal_hit[of k v "[]"] by simp
  have c: "fill_prn_content (placeholder k1) [(k1, Some (placeholder k2)), (k2, Some v2)] = Inr v2"
    if "backslash \<notin> set k2"
  proof -
    have "backslash \<notin> set (placeholder k2)" using that by (simp add: placeholder_def backslash_def)
    then show ?thesis
      using assms(3) ne by (simp add: fill_prn_content_def o1 re_sub_placeholder_plain h)
  qed
  have d: "fill_prn_content ''{AB}'' [(''AB'', Some ''{A}''), (''A'', Some ''1'')] = Inr ''1''"
    by (simp add: fill_eval)
  show ?thesis using a b c d by simp
qed

theorem fill_prn_content_sequential_witness:
  "length ''A'' < length ''AB'' \<and> backslash \<notin> set ''{A}'' \<and> backslash \<notin> set ''1''
   \<and> backslash \<notin> set ''A''
   \<and> fill_prn_content ''x{AB}y{A}'' [(''A'', Some ''1''), (''AB'', Some ''{A}'')] = Inr ''x1y1''
   \<and> fill_prn_content (placeholder ''AB'') [(''AB'', Some (placeholder ''A'')), (''A'', Some ''1'')]
       = Inr ''1''"
proof -
  have h: "length ''A'' < length ''AB''" "backslash \<notin> set ''{A}''" "backslash \<notin> set ''1''"
    "backslash \<notin> set ''A''"
    by (simp_all add: backslash_def)
  show ?thesis
    using h fill_prn_content_sequential[OF h(1,2,3), of "''x{AB}y{A}''"]
    by (simp add: placeholder_def)
qed

subsection \<open>Variable store\<close>

lemma select_after_insert:
  "\<exists>pid. select_product_id (insert_or_ignore_product d n) n = Some pid"
proof -
  have "n \<in> snd ` set (products (insert_or_ignore_product d n))"
    by (auto simp: insert_or_ignore_product_def)
  then have "find (\<lambda>r. snd r = n) (products (insert_or_ignore_product d n)) \<noteq> None"
    by (auto simp: find_None_iff)
  then show ?thesis by (auto simp: select_product_id_def)
qed

lemma insert_or_ignore_known:
  "n \<in> snd ` set (products d) \<Longrightarrow> products (insert_or_ignore_product d n) = products d"
  by (simp add: insert_or_ignore_product_def)

lemma insert_or_ignore_variables [simp]:
  "variables (insert_or_ignore_product d n) = variables d"
  by (simp add: insert_or_ignore_product_def)

lemma insert_or_ignore_prns [simp]:
  "product_prns (insert_or_ignore_product d n) = product_prns d"
  "next_prn_id (insert_or_ignore_product d n) = next_prn_id d"
  by (simp_all add: insert_or_ignore_product_def)

lemma upsert_products [simp]:
  "products (upsert_variable d pid st n v) = products d"
  "next_product_id (upsert_variable d pid st n v) = next_product_id d"
  "product_prns (upsert_variable d pid st n v) = product_prns d"
  by (simp_all add: upsert_variable_def)

lemma select_product_id_cong:
  "products d = products d' \<Longrightarrow> select_product_id d n = select_product_id d' n"
  by (simp add: select_product_id_def)

lemma rows_of_cong: "variables d = variables d' \<Longrightarrow> rows_of d pid st n = rows_of d' pid st n"
  by (simp add: rows_of_def)

lemma var_matches_key: "var_matches pid st n r = (var_key r = (pid, st, n))"
  by (auto simp: var_matches_def var_key_def)

lemma var_key_set_value [simp]: "var_key (r\<lparr>field_value := v\<rparr>) = var_key r"
  by (simp add: var_key_def)

lemma set_value_keys:
  "map var_key (map (\<lambda>r. if P r then r\<lparr>field_value := v\<rparr> else r) rows) = map var_key rows"
  by (induction rows) simp_all

lemma set_value_matches:
  "list_ex (var_matches pid st n) (map (\<lambda>r. if P r then r\<lparr>field_value := v\<rparr> else r) rows)
     = list_ex (var_matches pid st n) rows"
  by (induction rows) (simp_all add: var_matches_def)

lemma upsert_keeps_unique:
  assumes "vars_unique d"
  shows "vars_unique (upsert_variable d pid st n v)"
proof (cases "list_ex (var_matches pid st n) (variables d)")
  case True
  with assms show ?thesis
    by (simp add: upsert_variable_def vars_unique_def set_value_keys del: map_map)
next
  case False
  then have "(pid, st, n) \<notin> set (map var_key (variables d))"
    by (auto simp: list_ex_iff var_matches_key)
  with False assms show ?thesis
    by (simp add: upsert_variable_def vars_unique_def var_key_def)
qed

lemma fold_upsert_unique:
  "vars_unique d \<Longrightarrow>
     vars_unique (fold (\<lambda>(name, val) acc. upsert_variable acc pid st name val) vars d)"
  by (induction vars arbitrary: d) (auto simp: upsert_keeps_unique)

lemma insert_or_ignore_unique:
  "vars_unique (insert_or_ignore_product d n) = vars_unique d"
  by (simp add: vars_unique_def)

lemma save_fields_keeps_unique:
  "vars_unique d \<Longrightarrow> vars_unique (snd (save_fields d req))"
  by (auto simp: save_fields_def Let_def fold_upsert_unique insert_or_ignore_unique
      split: option.splits)

lemma empty_db_unique: "vars_unique empty_db"
  by (simp add: vars_unique_def empty_db_def)

lemma reachable_unique:
  "vars_unique d \<Longrightarrow> vars_unique (fold (\<lambda>req acc. snd (save_fields acc req)) reqs d)"
  by (induction reqs arbitrary: d) (auto simp: save_fields_keeps_unique)

lemma unique_rows_le_1:
  "distinct (map var_key rows) \<Longrightarrow> length (filter (var_matches pid st n) rows) \<le> 1"
proof (induction rows)
  case Nil
  show ?case by simp
next
  case (Cons r rows)
  show ?case
  proof (cases "var_matches pid st n r")
    case True
    then have "var_key r = (pid, st, n)" by (simp add: var_matches_key)
    with Cons.prems have "\<forall>x\<in>set rows. \<not> var_matches pid st n x"
      by (force simp: var_matches_key)
    then have "filter (var_matches pid st n) rows = []" by (simp add: filter_empty_conv)
    with True show ?thesis by simp
  next
    case False
    with Cons show ?thesis by simp
  qed
qed

lemma rows_of_upsert:
  assumes "vars_unique d"
  shows "\<exists>row. rows_of (upsert_variable d pid st n v) pid st n = [row] \<and> field_value row = v"
proof (cases "list_ex (var_matches pid st n) (variables d)")
  case True
  let ?f = "\<lambda>r. if var_matches pid st n r then r\<lparr>field_value := v\<rparr> else r"
  have m: "var_matches pid st n (?f r) = var_matches pid st n r" for r
    by (simp add: var_matches_def)
  have eq: "filter (var_matches pid st n) (map ?f rows)
      = map (\<lambda>r. r\<lparr>field_value := v\<rparr>) (filter (var_matches pid st n) rows)" for rows
    by (induction rows) (auto simp: var_matches_def)
  from True have "filter (var_matches pid st n) (variables d) \<noteq> []"
    by (auto simp: list_ex_iff filter_empty_conv)
  moreover have "length (filter (var_matches pid st n) (variables d)) \<le> 1"
    using assms unique_rows_le_1 by (simp add: vars_unique_def)
  ultimately obtain r where "filter (var_matches pid st n) (variables d) = [r]"
    by (cases "filter (var_matches pid st n) (variables d)") auto
  with True show ?thesis by (simp add: rows_of_def upsert_variable_def eq)
next
  case False
  then have "filter (var_matches pid st n) (variables d) = []"
    by (auto simp: list_ex_iff filter_empty_conv)
  with False show ?thesis by (simp add: rows_of_def upsert_variable_def var_matches_def)
qed

text \<open>
  An upsert of the value that every row of the key already holds leaves the table as it
  is, wherever the sequence stands; and the table is so after an upsert of that value.
\<close>

lemma upsert_again:
  assumes "list_ex (var_matches pid st n) (variables d)"
    and "\<forall>r\<in>set (variables d). var_matches pid st n r \<longrightarrow> field_value r = v"
  shows "variables (upsert_variable d pid st n v) = variables d"
proof -
  have "map (\<lambda>r. if var_matches pid st n r then r\<lparr>field_value := v\<rparr> else r) (variables d)
      = variables d"
    using assms(2) by (intro map_idI) auto
  with assms(1) show ?thesis by (simp add: upsert_variable_def)
qed

lemma upsert_sets_value:
  "list_ex (var_matches pid st n) (variables (upsert_variable d pid st n v))
   \<and> (\<forall>r\<in>set (variables (upsert_variable d pid st n v)).
         var_matches pid st n r \<longrightarrow> field_value r = v)"
proof (cases "list_ex (var_matches pid st n) (variables d)")
  case True
  let ?f = "\<lambda>r. if var_matches pid st n r then r\<lparr>field_value := v\<rparr> else r"
  have h: "var_matches pid st n (?f x) \<longrightarrow> field_value (?f x) = v" for x
    by (cases "var_matches pid st n x") simp_all
  have "\<forall>r\<in>?f ` set (variables d). var_matches pid st n r \<longrightarrow> field_value r = v"
  proof
    fix r assume "r \<in> ?f ` set (variables d)"
    then obtain x where "r = ?f x" by (rule imageE)
    with h[of x] show "var_matches pid st n r \<longrightarrow> field_value r = v"
      by (simp only:)
  qed
  moreover from True have "variables (upsert_variable d pid st n v) = map ?f (variables d)"
    by (simp add: upsert_variable_def)
  ultimately show ?thesis using True
    by (simp only: set_map set_value_matches simp_thms)
next
  case False
  let ?new = "\<lparr>var_id = next_variable_id d, var_product_id = pid, var_stage = st,
                 field_name = n, field_value = v\<rparr>"
  from False have nm: "\<forall>r\<in>set (variables d). \<not> var_matches pid st n r"
    by (simp add: list_ex_iff)
  have new: "var_matches pid st n ?new" "field_value ?new = v"
    by (simp_all add: var_matches_def)
  from False have eq: "variables (upsert_variable d pid st n v) = variables d @ [?new]"
    by (simp add: upsert_variable_def)
  have "list_ex (var_matches pid st n) (variables d @ [?new])"
    using new(1) by (simp add: list_ex_iff)
  moreover have "\<forall>r\<in>set (variables d @ [?new]). var_matches pid st n r \<longrightarrow> field_value r = v"
  proof (rule ballI, rule impI)
    fix r assume a: "r \<in> set (variables d @ [?new])" "var_matches pid st n r"
    from a(1) have "r \<in> set (variables d) \<or> r = ?new"
      by (simp only: set_append list.set Un_iff insert_iff empty_iff simp_thms)
    with nm a(2) have "r = ?new" by blast
    with new(2) show "field_value r = v" by (simp only:)
  qed
  ultimately show ?thesis by (simp only: eq simp_thms)
qed

lemma upsert_overwrites:
  assumes "rows_of d pid st n = [row]"
  shows "rows_of (upsert_variable d pid st n v) pid st n = [row\<lparr>field_value := v\<rparr>]
         \<and> length (variables (upsert_variable d pid st n v)) = length (variables d)
         \<and> map var_id (variables (upsert_variable d pid st n v)) = map var_id (variables d)"
proof -
  have eq: "filter (var_matches pid st n)
        (map (\<lambda>r. if var_matches pid st n r then r\<lparr>field_value := v\<rparr> else r) rows)
      = map (\<lambda>r. r\<lparr>field_value := v\<rparr>) (filter (var_matches pid st n) rows)" for rows
    by (induction rows) (auto simp: var_matches_def)
  from assms have "row \<in> set (filter (var_matches pid st n) (variables d))"
    by (simp add: rows_of_def)
  then have ex: "list_ex (var_matches pid st n) (variables d)" by (auto simp: list_ex_iff)
  have "map var_id (map (\<lambda>r. if var_matches pid st n r then r\<lparr>field_value := v\<rparr> else r)
          (variables d)) = map var_id (variables d)"
    by (auto intro: map_cong)
  with ex assms show ?thesis by (simp add: rows_of_def upsert_variable_def eq)
qed

lemma stage_of_upsert_request:
  "stage_folder_name s = Some st \<Longrightarrow> require_stage_from_request (upsert_request p s vars) = Some st"
  by (cases "s = []") (auto simp: require_stage_from_request_def upsert_request_def stage_folder_name_def)

lemma save_fields_single:
  assumes "stage_folder_name s = Some st" "py_strip p \<noteq> []"
    "select_product_id (insert_or_ignore_product d (py_strip p)) (py_strip p) = Some pid"
  shows "save_fields d (upsert_request p s [(n, v)])
     = (Saved_merged (py_strip p) st,
        upsert_variable (insert_or_ignore_product d (py_strip p)) pid st n v)"
  using assms stage_of_upsert_request[OF assms(1), of p "[(n, v)]"]
  by (simp add: save_fields_def upsert_request_def Let_def)

text \<open>
  C5. Let the table \<open>variables\<close> satisfy its uniqueness constraint, \<open>s\<close> be a valid stage
  and \<open>p\<close> a product name that is not blank, and let \<open>upsertMany(p, s, {A: 1})\<close> be
  called twice and \<open>upsertMany(p, s, {A: 2})\<close> after that. All three calls answer 200.
  The second call leaves the rows of all three tables as the first left them, and the
  table \<open>variables\<close> then holds exactly one row for the product, the stage and \<open>A\<close>, with
  the value \<open>1\<close>. After the third call that same row holds the value \<open>2\<close>, and the ids
  of the table are unchanged. Every \<open>save_fields\<close> request preserves the uniqueness
  constraint, so it holds in every state that requests to \<open>save_fields\<close> reach from the
  empty database.
\<close>

theorem save_fields_upsert:
  assumes "vars_unique d" "stage_folder_name s = Some st" "py_strip p \<noteq> []"
  shows "(\<exists>pid row d1 d2 d3.
           save_fields d (upsert_request p s [(''A'', Some ''1'')]) = (Saved_merged (py_strip p) st, d1)
         \<and> save_fields d1 (upsert_request p s [(''A'', Some ''1'')]) = (Saved_merged (py_strip p) st, d2)
         \<and> save_fields d2 (upsert_request p s [(''A'', Some ''2'')]) = (Saved_merged (py_strip p) st, d3)
         \<and> variables d2 = variables d1 \<and> products d2 = products d1
         \<and> product_prns d2 = product_prns d1
         \<and> select_product_id d1 (py_strip p) = Some pid
         \<and> rows_of d2 pid st ''A'' = [row] \<and> field_value row = Some ''1''
         \<and> rows_of d3 pid st ''A'' = [row\<lparr>field_value := Some ''2''\<rparr>]
         \<and> map var_id (variables d3) = map var_id (variables d2))
       \<and> vars_unique (snd (save_fields d req))
       \<and> vars_unique (fold (\<lambda>req acc. snd (save_fields acc req)) reqs empty_db)"
proof -
  let ?n = "py_strip p"
  let ?d0 = "insert_or_ignore_product d ?n"
  obtain pid where pid: "select_product_id ?d0 ?n = Some pid" using select_after_insert by blast
  let ?d1 = "upsert_variable ?d0 pid st ''A'' (Some ''1'')"
  have s1: "save_fields d (upsert_request p s [(''A'', Some ''1'')]) = (Saved_merged ?n st, ?d1)"
    by (rule save_fields_single[OF assms(2,3) pid])
  have inp: "?n \<in> snd ` set (products ?d0)" by (auto simp: insert_or_ignore_product_def)
  have p1: "select_product_id ?d1 ?n = Some pid"
    using pid select_product_id_cong[of ?d1 ?d0 ?n] by simp
  let ?e0 = "insert_or_ignore_product ?d1 ?n"
  have pe: "products ?e0 = products ?d1" using inp by (simp add: insert_or_ignore_known)
  have se: "select_product_id ?e0 ?n = Some pid"
    using p1 select_product_id_cong[OF pe, of ?n] by simp
  let ?d2 = "upsert_variable ?e0 pid st ''A'' (Some ''1'')"
  have s2: "save_fields ?d1 (upsert_request p s [(''A'', Some ''1'')]) = (Saved_merged ?n st, ?d2)"
    by (rule save_fields_single[OF assms(2,3) se])
  have v2: "variables ?d2 = variables ?d1"
    using upsert_again[where pid = pid and st = st and n = "''A''" and d = ?e0
        and v = "Some ''1''"]
      upsert_sets_value[where pid = pid and st = st and n = "''A''" and d = ?d0
        and v = "Some ''1''"] by simp
  have t2: "products ?d2 = products ?d1" "product_prns ?d2 = product_prns ?d1"
    using pe by simp_all
  have u0: "vars_unique ?d0" using assms(1) by (simp add: insert_or_ignore_unique)
  obtain row where row: "rows_of ?d1 pid st ''A'' = [row]" "field_value row = Some ''1''"
    using rows_of_upsert[OF u0, of pid st "''A''" "Some ''1''"] by blast
  have r2: "rows_of ?d2 pid st ''A'' = [row]" using row(1) rows_of_cong[OF v2] by simp
  let ?f0 = "insert_or_ignore_product ?d2 ?n"
  have pf: "products ?f0 = products ?d2" using inp t2(1) by (simp add: insert_or_ignore_known)
  have sf: "select_product_id ?f0 ?n = Some pid"
    using p1 select_product_id_cong[OF pf, of ?n] select_product_id_cong[OF t2(1), of ?n] by simp
  let ?d3 = "upsert_variable ?f0 pid st ''A'' (Some ''2'')"
  have s3: "save_fields ?d2 (upsert_request p s [(''A'', Some ''2'')]) = (Saved_merged ?n st, ?d3)"
    by (rule save_fields_single[OF assms(2,3) sf])
  have rf: "rows_of ?f0 pid st ''A'' = [row]"
    using r2 rows_of_cong[of ?f0 ?d2] by simp
  have r3: "rows_of ?d3 pid st ''A'' = [row\<lparr>field_value := Some ''2''\<rparr>]"
    "map var_id (variables ?d3) = map var_id (variables ?d2)"
    using upsert_overwrites[OF rf, of "Some ''2''"] by simp_all
  have a: "\<exists>pid row d1 d2 d3.
           save_fields d (upsert_request p s [(''A'', Some ''1'')]) = (Saved_merged (py_strip p) st, d1)
         \<and> save_fields d1 (upsert_request p s [(''A'', Some ''1'')]) = (Saved_merged (py_strip p) st, d2)
         \<and> save_fields d2 (upsert_request p s [(''A'', Some ''2'')]) = (Saved_merged (py_strip p) st, d3)
         \<and> variables d2 = variables d1 \<and> products d2 = products d1
         \<and> product_prns d2 = product_prns d1
         \<and> select_product_id d1 (py_strip p) = Some pid
         \<and> rows_of d2 pid st ''A'' = [row] \<and> field_value row = Some ''1''
         \<and> rows_of d3 pid st ''A'' = [row\<lparr>field_value := Some ''2''\<rparr>]
         \<and> map var_id (variables d3) = map var_id (variables d2)"
    by (rule exI[of _ pid], rule exI[of _ row], rule exI[of _ ?d1], rule exI[of _ ?d2],
        rule exI[of _ ?d3])
      (simp only: s1 s2 s3 v2 t2 p1 r2 row(2) r3 simp_thms)
  have b: "vars_unique (snd (save_fields d req))" by (rule save_fields_keeps_unique[OF assms(1)])
  have c: "vars_unique (fold (\<lambda>req acc. snd (save_fields acc req)) reqs empty_db)"
    by (rule reachable_unique[OF empty_db_unique])
  from a b c show ?thesis by blast
qed

lemma strip_P: "py_strip ''P'' = ''P''"
  by (simp add: py_strip_def py_isspace_def)

lemma stage_raw_lower: "stage_folder_name ''raw'' = Some ''Raw''"
  by (simp add: stage_folder_name_def py_lower_def py_strip_def py_isspace_def py_lower_char_def)

theorem save_fields_upsert_witness:
  "vars_unique empty_db \<and> stage_folder_name ''raw'' = Some ''Raw'' \<and> py_strip ''P'' \<noteq> []
   \<and> (\<exists>pid row d1 d2 d3.
         save_fields empty_db (upsert_request ''P'' ''raw'' [(''A'', Some ''1'')])
           = (Saved_merged ''P'' ''Raw'', d1)
       \<and> save_fields d1 (upsert_request ''P'' ''raw'' [(''A'', Some ''1'')])
           = (Saved_merged ''P'' ''Raw'', d2)
       \<and> save_fields d2 (upsert_request ''P'' ''raw'' [(''A'', Some ''2'')])
           = (Saved_merged ''P'' ''Raw'', d3)
       \<and> variables d2 = variables d1 \<and> products d2 = products d1
       \<and> product_prns d2 = product_prns d1
       \<and> select_product_id d1 ''P'' = Some pid
       \<and> rows_of d2 pid ''Raw'' ''A'' = [row] \<and> field_value row = Some ''1''
       \<and> rows_of d3 pid ''Raw'' ''A'' = [row\<lparr>field_value := Some ''2''\<rparr>]
       \<and> map var_id (variables d3) = map var_id (variables d2))"
proof -
  have h: "vars_unique empty_db" "stage_folder_name ''raw'' = Some ''Raw''" "py_strip ''P'' \<noteq> []"
    using empty_db_unique stage_raw_lower by (simp_all add: strip_P)
  note k = save_fields_upsert[OF h, unfolded strip_P, THEN conjunct1]
  from h k show ?thesis by (intro conjI)
qed

text \<open>
  C6. The handler trims the names it is given. If the product exists and has, for the
  stage, a variable of the old name and a variable of the new name, and the two names
  differ, \<open>update_variable\<close> answers 409 and returns the database it was given: no row
  is changed, whatever new value the request carries.
\<close>

theorem update_variable_conflict:
  assumes "require_stage_from_request req = Some st"
    and "json_product_name req = Some p"
    and "old_field_name req = Some a" and "new_field_name req = Some b"
    and "select_product_id d (py_strip p) = Some pid"
    and "select_variable d pid st (py_strip a) = Some row_a"
    and "select_variable d pid st (py_strip b) = Some row_b"
    and "py_strip a \<noteq> py_strip b"
  shows "update_variable d req
     = (Error 409 ''target variable name already exists for this product+stage'', d)"
  using assms by (simp add: update_variable_def Let_def)

theorem update_variable_conflict_witness:
  "update_variable two_variables_db rename_A_to_B
     = (Error 409 ''target variable name already exists for this product+stage'', two_variables_db)
   \<and> map field_name (variables two_variables_db) = [''A'', ''B'']
   \<and> map field_value (variables two_variables_db) = [Some ''1'', Some ''2'']"
proof -
  have s: "py_strip ''A'' = ''A''" "py_strip ''B'' = ''B''"
    by (simp_all add: py_strip_def py_isspace_def)
  have 1: "require_stage_from_request rename_A_to_B = Some ''Raw''"
    by (simp add: require_stage_from_request_def rename_A_to_B_def stage_raw_lower)
  have 2: "json_product_name rename_A_to_B = Some ''P''" "old_field_name rename_A_to_B = Some ''A''"
    "new_field_name rename_A_to_B = Some ''B''"
    by (simp_all add: rename_A_to_B_def)
  have 3: "select_product_id two_variables_db (py_strip ''P'') = Some 1"
    by (simp add: select_product_id_def two_variables_db_def strip_P)
  have 4: "select_variable two_variables_db 1 ''Raw'' (py_strip ''A'')
      = Some \<lparr>var_id = 1, var_product_id = 1, var_stage = ''Raw'', field_name = ''A'',
          field_value = Some ''1''\<rparr>"
    by (simp add: select_variable_def two_variables_db_def var_matches_def s)
  have 5: "select_variable two_variables_db 1 ''Raw'' (py_strip ''B'')
      = Some \<lparr>var_id = 2, var_product_id = 1, var_stage = ''Raw'', field_name = ''B'',
          field_value = Some ''2''\<rparr>"
    by (simp add: select_variable_def two_variables_db_def var_matches_def s)
  have 6: "py_strip ''A'' \<noteq> py_strip ''B''" by (simp add: s)
  show ?thesis
    using update_variable_conflict[OF 1 2 3 4 5 6] by (simp add: two_variables_db_def)
qed

subsection \<open>Artifact registry\<close>

lemmas text_eval = py_strip_def py_isspace_def py_lower_def py_lower_char_def strip_chars_def
  is_word_char_def

lemmas path_eval = secure_filename_def nfkd_ascii_def py_split_def is_filename_char_def
  normalize_product_folder_name_def path_join2_def os_path_join_def splitext_def str_int_def
  digits.simps allowed_file_def ALLOWED_EXTENSIONS_def UPLOAD_FOLDER_def

lemmas upload_eval = upload_file_def upload_a_def collision_safe_name_def register_upload_def
  insert_or_ignore_product_def select_product_id_def insert_prn_def prn_matches_def
  generate_preview_def extract_prn_columns_def extract_fields_def stage_folder_name_def

lemma upload_first:
  "upload_file empty_world (upload_a ''one'' 1700000000)
     = (Uploaded ''a.prn'' ''Raw'' ''uploads/P/Raw/a.prn'' [] None, world_one)"
  by (simp add: upload_eval path_eval text_eval empty_world_def empty_db_def world_one_def Let_def)

lemma upload_second:
  "upload_file world_one (upload_a ''two'' 1700000001)
     = (Uploaded ''a_1700000001.prn'' ''Raw'' ''uploads/P/Raw/a_1700000001.prn'' [] None, world_two)"
  by (simp add: upload_eval path_eval text_eval world_one_def world_two_def Let_def)

lemma upload_third:
  "upload_file world_two (upload_a ''three'' 1700000001)
     = (Error 409 ''PRN registration failed (possible duplicate)'',
        world_two\<lparr>db := (db world_two)\<lparr>next_product_id := 4\<rparr>,
                  disk := (disk world_two)(''uploads/P/Raw/a_1700000001.prn'' \<mapsto> ''three''),
                  effects := effects world_two @ [File_saved ''uploads/P/Raw/a_1700000001.prn'']\<rparr>)"
  by (simp add: upload_eval path_eval text_eval world_two_def Let_def)

lemma generate_preview_fails:
  assumes "renderer w = (\<lambda>_. None)"
  shows "fst (generate_preview w src out) = False"
    and "db (snd (generate_preview w src out)) = db w"
    and "disk (snd (generate_preview w src out)) = disk w"
    and "preview_requests (snd (generate_preview w src out)) \<le> Suc (preview_requests w)"
  using assms by (auto simp: generate_preview_def preview_requests_def Let_def split: option.splits)

lemma generate_preview_once:
  "preview_requests (snd (generate_preview w src out)) \<le> Suc (preview_requests w)"
  by (auto simp: generate_preview_def preview_requests_def Let_def split: option.splits)

lemma register_upload_registration:
  assumes "db w1 = db v1" "disk w1 = disk v1"
  shows "registration (fst (register_upload w1 pn st dir fn path cols))
       = registration (fst (register_upload v1 pn st dir fn path cols))"
  using assms
  by (auto simp: register_upload_def Let_def split: option.splits prod.splits)

lemma upload_file_registration:
  "registration (fst (upload_file (w\<lparr>renderer := f\<rparr>) req))
     = registration (fst (upload_file w req))"
  by (auto simp: upload_file_def Let_def collision_safe_name_def
      intro!: register_upload_registration split: option.splits sum.splits)

lemma insert_prn_rows:
  "insert_prn d pid st fn path = Some d2 \<Longrightarrow>
     product_prns d2 = product_prns d @
       [\<lparr>prn_id = next_prn_id d, prn_product_id = pid, prn_stage = st,
         prn_filename = fn, prn_path = path, preview_path = None\<rparr>]
     \<and> products d2 = products d"
  by (auto simp: insert_prn_def split: if_splits)

lemma register_upload_failing:
  assumes "renderer w1 = (\<lambda>_. None)"
    and "register_upload w1 pn st dir fn path cols = (Uploaded fn' st' path' cols' url, w')"
  shows "\<exists>pid. select_product_id (db w') pn = Some pid
          \<and> product_prns (db w') = product_prns (db w1) @
               [\<lparr>prn_id = next_prn_id (db w1), prn_product_id = pid, prn_stage = st',
                 prn_filename = fn', prn_path = path', preview_path = None\<rparr>]"
proof -
  let ?d1 = "insert_or_ignore_product (db w1) pn"
  from assms(2) obtain pid where pid: "select_product_id ?d1 pn = Some pid"
    by (cases "select_product_id ?d1 pn") (auto simp: register_upload_def Let_def)
  from assms(2) pid obtain d2 where d2: "insert_prn ?d1 pid st fn path = Some d2"
    by (cases "insert_prn ?d1 pid st fn path") (auto simp: register_upload_def Let_def)
  let ?w2 = "w1\<lparr>db := d2, effects := effects w1 @ [Prn_registered fn]\<rparr>"
  let ?g = "generate_preview ?w2 path (path_join2 dir (fst (splitext fn) @ ''.png''))"
  have r: "renderer ?w2 = (\<lambda>_. None)" using assms(1) by simp
  have g: "fst ?g = False" "db (snd ?g) = d2"
    using generate_preview_fails(1,2)[OF r] by simp_all
  from assms(2) pid d2 g have e: "fn' = fn" "st' = st" "path' = path" "w' = snd ?g"
    by (auto simp: register_upload_def Let_def split_beta)
  have "select_product_id d2 pn = Some pid"
    using pid insert_prn_rows[OF d2] by (simp add: select_product_id_def)
  then show ?thesis using insert_prn_rows[OF d2] e g by simp
qed

lemma upload_file_Uploaded:
  assumes "upload_file w req = (Uploaded fn st path cols url, w')"
  shows "\<exists>w1 stg dir fn0 sp cols0.
           register_upload w1 (py_strip (upload_product_name req)) stg dir fn0 sp cols0
             = (Uploaded fn st path cols url, w')
         \<and> db w1 = db w \<and> renderer w1 = renderer w"
proof -
  from assms obtain raw content where part: "upload_file_part req = Some (raw, content)"
    by (cases "upload_file_part req") (auto simp: upload_file_def)
  let ?pn = "py_strip (upload_product_name req)"
  from assms part have pn: "?pn \<noteq> []"
    by (auto simp: upload_file_def Let_def split: if_splits)
  from assms part pn obtain stg where stg: "stage_folder_name (py_strip (upload_stage req)) = Some stg"
    by (cases "stage_folder_name (py_strip (upload_stage req))") (auto simp: upload_file_def Let_def)
  from assms part pn stg have ok: "raw \<noteq> []" "allowed_file raw"
    by (auto simp: upload_file_def Let_def split: if_splits)
  let ?dir = "os_path_join UPLOAD_FOLDER [normalize_product_folder_name ?pn, stg]"
  let ?fn = "collision_safe_name w ?dir (secure_filename raw) (upload_now req)"
  let ?sp = "path_join2 ?dir ?fn"
  let ?w1 = "w\<lparr>disk := (disk w)(?sp \<mapsto> content), effects := effects w @ [File_saved ?sp]\<rparr>"
  have "register_upload ?w1 ?pn stg ?dir ?fn ?sp (extract_fields content)
      = (Uploaded fn st path cols url, w')"
    using assms part pn stg ok by (simp add: upload_file_def Let_def extract_prn_columns_def)
  moreover have "db ?w1 = db w" "renderer ?w1 = renderer w" by simp_all
  ultimately show ?thesis by blast
qed

lemma register_upload_once:
  "preview_requests (snd (register_upload w1 pn st dir fn path cols)) \<le> Suc (preview_requests w1)"
proof -
  have e: "preview_requests (w\<lparr>db := d\<rparr>) = preview_requests w" for w d
    by (simp add: preview_requests_def)
  have p: "preview_requests (w\<lparr>db := d, effects := effects w @ [Prn_registered fn]\<rparr>)
      = preview_requests w" for w d
    by (simp add: preview_requests_def)
  show ?thesis
    using generate_preview_once[of "w1\<lparr>db := d, effects := effects w1 @ [Prn_registered fn]\<rparr>"
        path "path_join2 dir (fst (splitext fn) @ ''.png'')" for d]
    by (auto simp: register_upload_def Let_def split_beta e p split: option.splits)
qed

lemma upload_file_once:
  "preview_requests (snd (upload_file w req)) \<le> Suc (preview_requests w)"
proof -
  have s: "preview_requests (w\<lparr>disk := m, effects := effects w @ [File_saved p]\<rparr>)
      = preview_requests w" for m p
    by (simp add: preview_requests_def)
  show ?thesis
    using register_upload_once[of "w\<lparr>disk := m, effects := effects w @ [File_saved p]\<rparr>" for m p]
    by (auto simp: upload_file_def Let_def s extract_prn_columns_def split: option.splits)
qed

lemma register_upload_succeeds:
  assumes "\<not> list_ex (\<lambda>r. prn_stage r = st \<and> prn_filename r = fn) (product_prns (db w1))"
  shows "\<exists>url w'. register_upload w1 pn st dir fn path cols = (Uploaded fn st path cols url, w')"
proof -
  let ?d1 = "insert_or_ignore_product (db w1) pn"
  obtain pid where pid: "select_product_id ?d1 pn = Some pid"
    using select_after_insert by blast
  have "\<not> list_ex (prn_matches pid st fn) (product_prns ?d1)"
    using assms by (auto simp: list_ex_iff prn_matches_def)
  then obtain d2 where d2: "insert_prn ?d1 pid st fn path = Some d2"
    by (simp add: insert_prn_def)
  show ?thesis using pid d2 by (simp add: register_upload_def Let_def split_beta)
qed

lemma upload_file_succeeds:
  assumes "upload_file_part req = Some (raw, content)"
    and "py_strip (upload_product_name req) \<noteq> []"
    and "stage_folder_name (py_strip (upload_stage req)) = Some st"
    and "raw \<noteq> []" "allowed_file raw"
    and "\<not> list_ex (\<lambda>r. prn_stage r = st \<and> prn_filename r =
            collision_safe_name w
              (os_path_join UPLOAD_FOLDER
                 [normalize_product_folder_name (py_strip (upload_product_name req)), st])
              (secure_filename raw) (upload_now req))
          (product_prns (db w))"
  shows "\<exists>fn path url w'. upload_file w req = (Uploaded fn st path (extract_fields content) url, w')"
proof -
  let ?pn = "py_strip (upload_product_name req)"
  let ?dir = "os_path_join UPLOAD_FOLDER [normalize_product_folder_name ?pn, st]"
  let ?fn = "collision_safe_name w ?dir (secure_filename raw) (upload_now req)"
  let ?sp = "path_join2 ?dir ?fn"
  let ?w1 = "w\<lparr>disk := (disk w)(?sp \<mapsto> content), effects := effects w @ [File_saved ?sp]\<rparr>"
  have "\<not> list_ex (\<lambda>r. prn_stage r = st \<and> prn_filename r = ?fn) (product_prns (db ?w1))"
    using assms(6) by simp
  from register_upload_succeeds[OF this, of ?pn ?dir ?sp "extract_fields content"]
  obtain url w' where "register_upload ?w1 ?pn st ?dir ?fn ?sp (extract_fields content)
      = (Uploaded ?fn st ?sp (extract_fields content) url, w')" by blast
  then have "upload_file w req = (Uploaded ?fn st ?sp (extract_fields content) url, w')"
    using assms(1-5) by (simp add: upload_file_def Let_def extract_prn_columns_def)
  then show ?thesis by blast
qed

text \<open>
  C8. The answer of \<open>upload_file\<close>, but for its preview link, does not depend on the
  preview service: no failure of the service reaches the upload. An upload sends at most
  one request to the service. When the service fails on every call: a request with a file
  part, a product name that is not blank, a valid stage and an allowed file name, whose
  final file name is not registered for the stage, is answered with 200; and whenever the
  upload answers 200, the table \<open>product_prns\<close> holds one row more than before, the row
  of the answer's file name, stage and path, with no preview path.
\<close>

theorem upload_file_preview_failure:
  assumes "renderer w = (\<lambda>_. None)"
  shows "registration (fst (upload_file (w\<lparr>renderer := f\<rparr>) req))
           = registration (fst (upload_file w req))
       \<and> preview_requests (snd (upload_file w req)) \<le> Suc (preview_requests w)
       \<and> (upload_file_part req = Some (raw, content)
            \<and> py_strip (upload_product_name req) \<noteq> []
            \<and> stage_folder_name (py_strip (upload_stage req)) = Some stg
            \<and> raw \<noteq> [] \<and> allowed_file raw
            \<and> \<not> list_ex (\<lambda>r. prn_stage r = stg \<and> prn_filename r =
                   collision_safe_name w
                     (os_path_join UPLOAD_FOLDER
                        [normalize_product_folder_name (py_strip (upload_product_name req)), stg])
                     (secure_filename raw) (upload_now req))
                 (product_prns (db w)) \<longrightarrow>
            (\<exists>fn' path' url' w''. upload_file w req
               = (Uploaded fn' stg path' (extract_fields content) url', w'')))
       \<and> (upload_file w req = (Uploaded fn st path cols url, w') \<longrightarrow>
            (\<exists>pid. select_product_id (db w') (py_strip (upload_product_name req)) = Some pid
               \<and> product_prns (db w') = product_prns (db w) @
                    [\<lparr>prn_id = next_prn_id (db w), prn_product_id = pid, prn_stage = st,
                      prn_filename = fn, prn_path = path, preview_path = None\<rparr>]))"
proof -
  have c: "\<exists>pid. select_product_id (db w') (py_strip (upload_product_name req)) = Some pid
               \<and> product_prns (db w') = product_prns (db w) @
                    [\<lparr>prn_id = next_prn_id (db w), prn_product_id = pid, prn_stage = st,
                      prn_filename = fn, prn_path = path, preview_path = None\<rparr>]"
    if u: "upload_file w req = (Uploaded fn st path cols url, w')"
  proof -
    from upload_file_Uploaded[OF u] obtain w1 stg dir fn0 sp cols0 where
      r: "register_upload w1 (py_strip (upload_product_name req)) stg dir fn0 sp cols0
             = (Uploaded fn st path cols url, w')"
      and w1: "db w1 = db w" "renderer w1 = renderer w" by blast
    from w1 assms have "renderer w1 = (\<lambda>_. None)" by simp
    from register_upload_failing[OF this r] w1 show ?thesis by simp
  qed
  show ?thesis
    using upload_file_registration[where w = w and f = f and req = req]
      upload_file_once[where w = w and req = req] c
      upload_file_succeeds[where req = req and raw = raw and content = content and st = stg
        and w = w]
    by blast
qed

theorem upload_file_preview_failure_witness:
  "renderer empty_world = (\<lambda>_. None)
   \<and> upload_file empty_world (upload_a ''one'' 1700000000)
       = (Uploaded ''a.prn'' ''Raw'' ''uploads/P/Raw/a.prn'' [] None, world_one)
   \<and> (\<exists>pid. product_prns (db world_one) =
         [\<lparr>prn_id = 1, prn_product_id = pid, prn_stage = ''Raw'', prn_filename = ''a.prn'',
           prn_path = ''uploads/P/Raw/a.prn'', preview_path = None\<rparr>])
   \<and> preview_requests (snd (upload_file empty_world (upload_a ''one'' 1700000000)))
       \<le> Suc (preview_requests empty_world)"
proof -
  have h: "renderer empty_world = (\<lambda>_. None)" by (simp add: empty_world_def)
  have e: "product_prns (db empty_world) = []" "next_prn_id (db empty_world) = 1"
    by (simp_all add: empty_world_def empty_db_def)
  note t = upload_file_preview_failure[OF h, where req = "upload_a ''one'' 1700000000"
      and fn = "''a.prn''" and st = "''Raw''" and path = "''uploads/P/Raw/a.prn''"
      and cols = "[]" and url = None and w' = world_one and f = "\<lambda>_. None"
      and raw = "''a.prn''" and content = "''one''" and stg = "''Raw''"]
  from t have p: "preview_requests (snd (upload_file empty_world (upload_a ''one'' 1700000000)))
       \<le> Suc (preview_requests empty_world)" by blast
  from t upload_first
  have "\<exists>pid. select_product_id (db world_one)
                (py_strip (upload_product_name (upload_a ''one'' 1700000000))) = Some pid
          \<and> product_prns (db world_one) = product_prns (db empty_world) @
               [\<lparr>prn_id = next_prn_id (db empty_world), prn_product_id = pid,
                 prn_stage = ''Raw'', prn_filename = ''a.prn'',
                 prn_path = ''uploads/P/Raw/a.prn'', preview_path = None\<rparr>]" by blast
  then have r: "\<exists>pid. product_prns (db world_one) =
         [\<lparr>prn_id = 1, prn_product_id = pid, prn_stage = ''Raw'', prn_filename = ''a.prn'',
           prn_path = ''uploads/P/Raw/a.prn'', preview_path = None\<rparr>]"
    unfolding e by auto
  from h upload_first r p show ?thesis by blast
qed

text \<open>
  C1 fails on the code. Three uploads of a file \<open>a.prn\<close> for the same product and stage
  from the empty world, the second and the third in the same second: the first is stored
  as \<open>a.prn\<close>, the second is renamed to \<open>a_1700000001.prn\<close> and stored with the content
  \<open>two\<close>; the third is renamed to \<open>a_1700000001.prn\<close> as well, is written over the file of the
  second, and is then refused with status 409. The rows of the tables are as before, so the row of
  \<open>a_1700000001.prn\<close> now stands for the content \<open>three\<close>.
\<close>

theorem upload_file_overwrites_renamed:
  "upload_file empty_world (upload_a ''one'' 1700000000)
     = (Uploaded ''a.prn'' ''Raw'' ''uploads/P/Raw/a.prn'' [] None, world_one)
   \<and> upload_file world_one (upload_a ''two'' 1700000001)
     = (Uploaded ''a_1700000001.prn'' ''Raw'' ''uploads/P/Raw/a_1700000001.prn'' [] None, world_two)
   \<and> disk world_two ''uploads/P/Raw/a_1700000001.prn'' = Some ''two''
   \<and> fst (upload_file world_two (upload_a ''three'' 1700000001))
     = Error 409 ''PRN registration failed (possible duplicate)''
   \<and> disk (snd (upload_file world_two (upload_a ''three'' 1700000001))) ''uploads/P/Raw/a_1700000001.prn''
     = Some ''three''
   \<and> product_prns (db (snd (upload_file world_two (upload_a ''three'' 1700000001))))
     = product_prns (db world_two)
   \<and> products (db (snd (upload_file world_two (upload_a ''three'' 1700000001))))
     = products (db world_two)
   \<and> map prn_filename (product_prns (db world_two)) = [''a.prn'', ''a_1700000001.prn'']"
  by (simp add: upload_first upload_second upload_third) (simp add: world_two_def)






end
